theory Spec2Isabelle
  imports Main
begin

section \<open>Strings and physical lines\<close>

text \<open>
  A JavaScript string is modelled as a \<open>string\<close> (a list of characters).
  \<open>LF\<close> is the character written \<^verbatim>\<open>'\n'\<close> in the source and \<open>CR\<close> the one
  written \<^verbatim>\<open>'\r'\<close>.
\<close>

abbreviation LF :: char where
  "LF \<equiv> CHR 0x0A"

abbreviation CR :: char where
  "CR \<equiv> CHR 0x0D"

text \<open>
  \<^verbatim>\<open>content.split('\n')\<close>: the pieces between consecutive \<open>LF\<close> characters. The
  empty string gives one empty piece, and a trailing \<open>LF\<close> gives a trailing empty
  piece. \<open>splitFrom cur s\<close> carries the piece read so far.
\<close>

fun splitFrom :: "string \<Rightarrow> string \<Rightarrow> string list" where
  "splitFrom cur [] = [cur]"
| "splitFrom cur (c # cs) =
     (if c = LF then cur # splitFrom [] cs else splitFrom (cur @ [c]) cs)"

definition splitNewline :: "string \<Rightarrow> string list" where
  "splitNewline s = splitFrom [] s"

text \<open>\<^verbatim>\<open>lines.join('\n')\<close>: the empty array gives the empty string.\<close>

fun joinNewline :: "string list \<Rightarrow> string" where
  "joinNewline [] = []"
| "joinNewline [l] = l"
| "joinNewline (l # m # ls) = l @ LF # joinNewline (m # ls)"

section \<open>Contextual values\<close>

text \<open>
  Modelled from the spec: \<^verbatim>\<open>contextualizeValue\<close> and \<^verbatim>\<open>wrap\<close> are imported by
  \<^verbatim>\<open>EditHandler.ts\<close> from \<^verbatim>\<open>@/exports\<close> and are not among the sources. The spec
  gives: a contextual value is either a literal or a single-argument function of
  the preset; resolving a function invokes it with the preset and resolving a
  literal returns it unchanged; the content of an addition, one string or a list
  of strings, is normalized to a list.
\<close>

datatype ('p, 'a) ContextualValue = Literal 'a | Callback "'p \<Rightarrow> 'a"

fun contextualizeValue :: "'p \<Rightarrow> ('p, 'a) ContextualValue \<Rightarrow> 'a" where
  "contextualizeValue preset (Literal v) = v"
| "contextualizeValue preset (Callback f) = f preset"

datatype oneOrMany = One string | Many "string list"

fun wrap :: "oneOrMany \<Rightarrow> string list" where
  "wrap (One s) = [s]"
| "wrap (Many ls) = ls"

section \<open>The line addition of \<^verbatim>\<open>EditHandler\<close>\<close>

text \<open>
  The direction is compared with \<^verbatim>\<open>'above'\<close> only; every other value behaves as
  \<^verbatim>\<open>'below'\<close>.
\<close>

datatype direction = Above | Below

text \<open>
  The indent of an addition is \<^verbatim>\<open>undefined\<close>, a number or a string (the string
  \<^verbatim>\<open>'double'\<close> among them). Numbers are modelled as integers.
\<close>

datatype indentation = IndentUndefined | IndentNumber int | IndentString string

text \<open>
  The search of an addition is a regular expression or a falsy value. A regular
  expression is modelled by the predicate \<^verbatim>\<open>line.match(search) !== null\<close> on
  lines, which for an expression without the sticky flag depends on the line
  alone; \<open>None\<close> is the falsy value. The amount of lines to skip is a number,
  modelled as an integer.
\<close>

record 'p LineAddition =
  search :: "('p, (string \<Rightarrow> bool) option) ContextualValue"
  direction :: "('p, direction) ContextualValue"
  content :: "('p, oneOrMany) ContextualValue"
  indent :: "('p, indentation) ContextualValue"
  amountOfLinesToSkip :: "('p, int) ContextualValue"

text \<open>\<^verbatim>\<open>' '.repeat(n)\<close> throws a \<^verbatim>\<open>RangeError\<close> when \<open>n\<close> is negative.\<close>

datatype error = RangeError

text \<open>JavaScript falsiness of an indent: \<^verbatim>\<open>undefined\<close>, \<^verbatim>\<open>0\<close> and \<^verbatim>\<open>''\<close>.\<close>

fun falsy :: "indentation \<Rightarrow> bool" where
  "falsy IndentUndefined = True"
| "falsy (IndentNumber n) = (n = 0)"
| "falsy (IndentString s) = (s = [])"

text \<open>
  The body of the \<^verbatim>\<open>forEach\<close> callback: the line pushed for one \<open>lineToAdd\<close>.
  \<open>detectIndent\<close> stands for \<^verbatim>\<open>detectIndent(previousLine).indent\<close> of the
  \<^verbatim>\<open>detect-indent\<close> package, a parameter of the model.
\<close>

definition indentedLine ::
  "(string \<Rightarrow> string) \<Rightarrow> indentation \<Rightarrow> string \<Rightarrow> string \<Rightarrow> error + string" where
  "indentedLine detectIndent additionIndent previousLine lineToAdd =
     (let ind = detectIndent previousLine in
      if falsy additionIndent then Inr (ind @ lineToAdd)
      else if additionIndent = IndentString ''double'' then Inr (ind @ ind @ lineToAdd)
      else (case additionIndent of
              IndentNumber n \<Rightarrow>
                if n < 0 then Inl RangeError
                else Inr (replicate (nat n) CHR '' '' @ lineToAdd)
            | IndentString s \<Rightarrow> Inr (s @ lineToAdd)
            | IndentUndefined \<Rightarrow> Inr (ind @ lineToAdd)))"

text \<open>
  \<^verbatim>\<open>orderedContentToAdd.forEach(...)\<close>: pushes one indented line after the other
  onto \<open>finalLines\<close>; an exception of the callback ends the whole call.
\<close>

fun addLines ::
  "(string \<Rightarrow> string) \<Rightarrow> indentation \<Rightarrow> string \<Rightarrow> string list \<Rightarrow> string list
    \<Rightarrow> error + string list" where
  "addLines detectIndent additionIndent previousLine [] finalLines = Inr finalLines"
| "addLines detectIndent additionIndent previousLine (lineToAdd # rest) finalLines =
     (case indentedLine detectIndent additionIndent previousLine lineToAdd of
        Inl e \<Rightarrow> Inl e
      | Inr l \<Rightarrow> addLines detectIndent additionIndent previousLine rest (finalLines @ [l]))"

text \<open>The variables the \<^verbatim>\<open>for\<close> loop over \<open>initialLines\<close> updates.\<close>

record loopState =
  finalLines :: "string list"
  amountOfLinesBeforeAdding :: int
  previousLine :: string
  hasMatch :: bool

text \<open>The \<^verbatim>\<open>for (const line of initialLines)\<close> loop, one equation per iteration.\<close>

fun scanLines ::
  "(string \<Rightarrow> string) \<Rightarrow> (string \<Rightarrow> bool) \<Rightarrow> string list \<Rightarrow> indentation
    \<Rightarrow> string list \<Rightarrow> loopState \<Rightarrow> error + loopState" where
  "scanLines detectIndent matches orderedContentToAdd additionIndent [] st = Inr st"
| "scanLines detectIndent matches orderedContentToAdd additionIndent (line # rest) st =
     (let st1 = st\<lparr>finalLines := finalLines st @ [line], previousLine := line\<rparr> in
      if \<not> matches line \<and> \<not> hasMatch st1
      then scanLines detectIndent matches orderedContentToAdd additionIndent rest st1
      else
        let st2 = st1\<lparr>hasMatch := True\<rparr> in
        if amountOfLinesBeforeAdding st2 > 0
        then scanLines detectIndent matches orderedContentToAdd additionIndent rest
               (st2\<lparr>amountOfLinesBeforeAdding := amountOfLinesBeforeAdding st2 - 1\<rparr>)
        else
          let st3 = st2\<lparr>hasMatch := False\<rparr> in
          (case addLines detectIndent additionIndent (previousLine st3)
                  orderedContentToAdd (finalLines st3) of
             Inl e \<Rightarrow> Inl e
           | Inr ls \<Rightarrow>
               scanLines detectIndent matches orderedContentToAdd additionIndent rest
                 (st3\<lparr>finalLines := ls\<rparr>)))"

text \<open>
  \<^verbatim>\<open>performLineAddition(content, addition)\<close>, with \<^verbatim>\<open>this.preset\<close> as the
  argument \<open>preset\<close> and the parameter \<^verbatim>\<open>content\<close> as \<open>fileContent\<close> (the name
  \<open>content\<close> is the field of the addition). The result is the resolved string, or
  the exception thrown. The debug message sent to the bus does not affect the
  result and is left out. \<^verbatim>\<open>contentToAdd.reverse()\<close> reverses the array in place;
  within the call only its result and its length, which stays the same, are read.
\<close>

definition performLineAddition ::
  "(string \<Rightarrow> string) \<Rightarrow> 'p \<Rightarrow> string \<Rightarrow> 'p LineAddition \<Rightarrow> error + string" where
  "performLineAddition detectIndent preset fileContent addition =
     (let search = contextualizeValue preset (search addition);
          direction = contextualizeValue preset (direction addition);
          contentToAdd = wrap (contextualizeValue preset (content addition));
          orderedContentToAdd = (if direction = Above then rev contentToAdd else contentToAdd);
          additionIndent = contextualizeValue preset (indent addition);
          initialLines = (if direction = Above then rev (splitNewline fileContent)
                          else splitNewline fileContent);
          st0 = \<lparr>finalLines = [],
                 amountOfLinesBeforeAdding =
                   contextualizeValue preset (amountOfLinesToSkip addition),
                 previousLine = [],
                 hasMatch = False\<rparr>
      in case search of
           None \<Rightarrow> Inr fileContent
         | Some matches \<Rightarrow>
             if contentToAdd = [] then Inr fileContent
             else (case scanLines detectIndent matches orderedContentToAdd additionIndent
                          initialLines st0 of
                     Inl e \<Rightarrow> Inl e
                   | Inr st \<Rightarrow>
                       Inr (if direction = Above then joinNewline (rev (finalLines st))
                            else joinNewline (finalLines st))))"

section \<open>Vocabulary for stating what the line addition computes\<close>

text \<open>
  The prefix an inserted line receives when the callback does not throw, and the
  block of prefixed lines inserted at one anchor.
\<close>

fun indentOk :: "indentation \<Rightarrow> bool" where
  "indentOk (IndentNumber n) = (0 \<le> n)"
| "indentOk _ = True"

definition linePrefix :: "(string \<Rightarrow> string) \<Rightarrow> indentation \<Rightarrow> string \<Rightarrow> string" where
  "linePrefix detectIndent additionIndent anchor =
     (if falsy additionIndent then detectIndent anchor
      else if additionIndent = IndentString ''double''
      then detectIndent anchor @ detectIndent anchor
      else (case additionIndent of
              IndentNumber n \<Rightarrow> replicate (nat n) CHR '' ''
            | IndentString s \<Rightarrow> s
            | IndentUndefined \<Rightarrow> detectIndent anchor))"

definition block ::
  "(string \<Rightarrow> string) \<Rightarrow> indentation \<Rightarrow> string list \<Rightarrow> string \<Rightarrow> string list" where
  "block detectIndent additionIndent contentToAdd anchor =
     map (\<lambda>lineToAdd. linePrefix detectIndent additionIndent anchor @ lineToAdd) contentToAdd"

text \<open>A block after, respectively before, every line that matches.\<close>

definition insertAfterEach ::
  "(string \<Rightarrow> bool) \<Rightarrow> (string \<Rightarrow> string list) \<Rightarrow> string list \<Rightarrow> string list" where
  "insertAfterEach matches blk ls = concat (map (\<lambda>l. if matches l then l # blk l else [l]) ls)"

definition insertBeforeEach ::
  "(string \<Rightarrow> bool) \<Rightarrow> (string \<Rightarrow> string list) \<Rightarrow> string list \<Rightarrow> string list" where
  "insertBeforeEach matches blk ls = concat (map (\<lambda>l. if matches l then blk l @ [l] else [l]) ls)"

text \<open>
  Concrete inputs. \<open>includesString line sub\<close> is \<^verbatim>\<open>line.includes(sub)\<close>, the substring test;
  \<open>literalPattern sub\<close> is the regular expression that consists of the literal
  text \<open>sub\<close> (no metacharacters), which matches the lines that include \<open>sub\<close>.
  \<open>leadingWhitespace\<close> is an instance of the \<open>detectIndent\<close> parameter: the
  leading run of spaces, or else of tabs, of the line.
\<close>

fun startsWith :: "string \<Rightarrow> string \<Rightarrow> bool" where
  "startsWith line [] = True"
| "startsWith [] (c # sub) = False"
| "startsWith (d # line) (c # sub) = (d = c \<and> startsWith line sub)"

fun includesString :: "string \<Rightarrow> string \<Rightarrow> bool" where
  "includesString [] sub = (sub = [])"
| "includesString (c # line) sub = (startsWith (c # line) sub \<or> includesString line sub)"

definition literalPattern :: "string \<Rightarrow> string \<Rightarrow> bool" where
  "literalPattern sub line = includesString line sub"

definition leadingWhitespace :: "string \<Rightarrow> string" where
  "leadingWhitespace line =
     (if startsWith line '' '' then takeWhile (\<lambda>c. c = CHR '' '') line
      else takeWhile (\<lambda>c. c = CHR 0x09) line)"

section \<open>The module importer\<close>

subsection \<open>The file system and the errors\<close>

text \<open>
  The file system is a map from paths to what is there: a regular file with its
  text, or a directory. \<^verbatim>\<open>fs.existsSync\<close> is true for both.
  \<^verbatim>\<open>fs.statSync(p).isFile()\<close> throws \<^verbatim>\<open>ENOENT\<close> when nothing is at \<open>p\<close>.
  \<^verbatim>\<open>fs.readFileSync(p).toString()\<close> throws \<^verbatim>\<open>ENOENT\<close> when nothing is at \<open>p\<close> and
  \<^verbatim>\<open>EISDIR\<close> for a directory.
\<close>

datatype node = File string | Directory

type_synonym fileSystem = "string \<Rightarrow> node option"

datatype systemError = ENOENT string | EISDIR string

definition existsSync :: "fileSystem \<Rightarrow> string \<Rightarrow> bool" where
  "existsSync fs p = (fs p \<noteq> None)"

definition statSyncIsFile :: "fileSystem \<Rightarrow> string \<Rightarrow> systemError + bool" where
  "statSyncIsFile fs p =
     (case fs p of
        None \<Rightarrow> Inl (ENOENT p)
      | Some (File text) \<Rightarrow> Inr True
      | Some Directory \<Rightarrow> Inr False)"

definition readFileSync :: "fileSystem \<Rightarrow> string \<Rightarrow> systemError + string" where
  "readFileSync fs p =
     (case fs p of
        None \<Rightarrow> Inl (ENOENT p)
      | Some (File text) \<Rightarrow> Inr text
      | Some Directory \<Rightarrow> Inl (EISDIR p))"

text \<open>
  Modelled from the spec: the class \<^verbatim>\<open>ExecutionError\<close> is imported from
  \<^verbatim>\<open>@/exports\<close> and is not among the sources. The spec gives: one execution
  error kind carrying a user-facing message, an optional full diagnostic trace and
  a halt flag. The builder methods set these fields; \<^verbatim>\<open>withCompleteStack(error)\<close>
  keeps the original failure \<open>error\<close> as the trace.
\<close>

record 'e ExecutionError =
  userMessage :: string
  trace :: "'e option"
  halt :: bool

definition newExecutionError :: "'e ExecutionError" where
  "newExecutionError = \<lparr>userMessage = [], trace = None, halt = False\<rparr>"

definition withMessage :: "string \<Rightarrow> 'e ExecutionError \<Rightarrow> 'e ExecutionError" where
  "withMessage text e = e\<lparr>userMessage := text\<rparr>"

definition withoutStack :: "'e ExecutionError \<Rightarrow> 'e ExecutionError" where
  "withoutStack e = e\<lparr>trace := None\<rparr>"

definition withCompleteStack :: "'e \<Rightarrow> 'e ExecutionError \<Rightarrow> 'e ExecutionError" where
  "withCompleteStack error e = e\<lparr>trace := Some error\<rparr>"

definition stopsExecution :: "'e ExecutionError \<Rightarrow> 'e ExecutionError" where
  "stopsExecution e = e\<lparr>halt := True\<rparr>"

text \<open>
  What the importer can throw: an error of the file system, a failure \<open>'e\<close> raised
  by a collaborator (\<^verbatim>\<open>JSON.parse\<close>, \<^verbatim>\<open>transformSync\<close>, \<^verbatim>\<open>vm.runInContext\<close>), or
  an \<^verbatim>\<open>ExecutionError\<close>.
\<close>

datatype 'e thrown =
  SystemError systemError
| Raised 'e
| Execution "'e ExecutionError"

subsection \<open>\<^verbatim>\<open>findConfiguration\<close>\<close>

definition paths :: "string list" where
  "paths = [''preset'', ''src/preset'']"

definition extensions :: "string list" where
  "extensions = [''ts'', ''js'', ''mjs'', ''cjs'']"

text \<open>
  The list \<open>files\<close> the two nested \<^verbatim>\<open>forEach\<close> build. \<open>pathJoin\<close> stands for
  \<^verbatim>\<open>path.join\<close>, a parameter of the model.
\<close>

definition files :: "(string \<Rightarrow> string \<Rightarrow> string) \<Rightarrow> string \<Rightarrow> string list" where
  "files pathJoin directory =
     concat (map (\<lambda>file. map (\<lambda>extension. pathJoin directory (file @ ''.'' @ extension))
                            extensions) paths)"

text \<open>
  The first block of \<^verbatim>\<open>findConfiguration\<close>, the one on \<^verbatim>\<open>package.json\<close>. The
  result is an exception, or \<open>Some presetPath\<close> when the block returns, or \<open>None\<close>
  when control goes on to the guess. \<open>manifestPreset\<close> stands for
  \<^verbatim>\<open>JSON.parse(text).preset\<close>: a failure of the parser, or \<open>None\<close> for a missing or
  falsy property, or the declared path. \<open>magenta\<close> stands for \<^verbatim>\<open>color.magenta\<close>.
  Both are parameters of the model.
\<close>

definition specifiedConfiguration ::
  "(string \<Rightarrow> string \<Rightarrow> string) \<Rightarrow> (string \<Rightarrow> 'e + string option) \<Rightarrow> (string \<Rightarrow> string)
    \<Rightarrow> fileSystem \<Rightarrow> string \<Rightarrow> 'e thrown + string option" where
  "specifiedConfiguration pathJoin manifestPreset magenta fs directory =
     (let packagePath = pathJoin directory ''package.json'' in
      if existsSync fs packagePath then
        (case readFileSync fs packagePath of
           Inl e \<Rightarrow> Inl (SystemError e)
         | Inr text \<Rightarrow>
             (case manifestPreset text of
                Inl e \<Rightarrow> Inl (Raised e)
              | Inr None \<Rightarrow> Inr None
              | Inr (Some preset) \<Rightarrow>
                  (let presetPath = pathJoin directory preset in
                   case statSyncIsFile fs presetPath of
                     Inl e \<Rightarrow> Inl (SystemError e)
                   | Inr True \<Rightarrow> Inr (Some presetPath)
                   | Inr False \<Rightarrow>
                       Inl (Execution (stopsExecution (withoutStack (withMessage
                         (''The specified configuration file does not exist (''
                            @ magenta presetPath @ '').'')
                         newExecutionError)))))))
      else Inr None)"

text \<open>
  \<^verbatim>\<open>findConfiguration(directory)\<close>: the path of the entry file, or the exception
  thrown. The debug message sent to the bus is left out.
\<close>

definition findConfiguration ::
  "(string \<Rightarrow> string \<Rightarrow> string) \<Rightarrow> (string \<Rightarrow> 'e + string option) \<Rightarrow> (string \<Rightarrow> string)
    \<Rightarrow> fileSystem \<Rightarrow> string \<Rightarrow> 'e thrown + string" where
  "findConfiguration pathJoin manifestPreset magenta fs directory =
     (case specifiedConfiguration pathJoin manifestPreset magenta fs directory of
        Inl e \<Rightarrow> Inl e
      | Inr (Some presetPath) \<Rightarrow> Inr presetPath
      | Inr None \<Rightarrow>
          (case find (existsSync fs) (files pathJoin directory) of
             Some file \<Rightarrow> Inr file
           | None \<Rightarrow>
               Inl (Execution (stopsExecution (withoutStack (withMessage
                 (''The configuration file could not be found (tried in ''
                    @ magenta directory @ '').'')
                 newExecutionError))))))"

subsection \<open>\<^verbatim>\<open>evaluateConfiguration\<close>\<close>

text \<open>
  The values the host puts into the sandbox: the empty object \<^verbatim>\<open>{}\<close>, the host's
  \<^verbatim>\<open>require\<close> and \<^verbatim>\<open>module\<close>, the instance \<^verbatim>\<open>new Preset()\<close> and \<^verbatim>\<open>color\<close>. The
  type \<open>'v\<close> is that of JavaScript values.
\<close>

record 'v host =
  emptyObject :: 'v
  require :: 'v
  module :: 'v
  newPreset :: 'v
  color :: 'v

text \<open>
  The object given to \<^verbatim>\<open>vm.createContext\<close>: a context is modelled as the map
  from the names of the globals that this object gives it to their values. The
  built-in globals of the JavaScript language are not part of the model.
\<close>

definition createContext :: "'v host \<Rightarrow> (string \<rightharpoonup> 'v)" where
  "createContext h =
     [''exports'' \<mapsto> emptyObject h,
      ''require'' \<mapsto> require h,
      ''module'' \<mapsto> module h,
      ''Preset'' \<mapsto> newPreset h,
      ''color'' \<mapsto> color h]"

text \<open>
  \<^verbatim>\<open>evaluateConfiguration(script)\<close>. \<open>transformSync\<close> stands for the transform of
  \<^verbatim>\<open>esbuild\<close> and gives the code or the failure it throws; \<open>runInContext\<close> stands
  for \<^verbatim>\<open>vm.runInContext\<close> and gives the context as the script leaves it, or the
  failure thrown. The result is \<^verbatim>\<open>context.Preset\<close>, \<open>None\<close> being \<^verbatim>\<open>undefined\<close>.
\<close>

definition evaluateConfiguration ::
  "(string \<Rightarrow> 'e + 'c) \<Rightarrow> ('c \<Rightarrow> (string \<rightharpoonup> 'v) \<Rightarrow> 'e + (string \<rightharpoonup> 'v)) \<Rightarrow> 'v host
    \<Rightarrow> string \<Rightarrow> 'e thrown + 'v option" where
  "evaluateConfiguration transformSync runInContext h script =
     (let context = createContext h in
      case (case transformSync script of
              Inl error \<Rightarrow> Inl error
            | Inr code \<Rightarrow> runInContext code context) of
        Inl error \<Rightarrow>
          Inl (Execution (stopsExecution (withCompleteStack error (withMessage
            ''The preset could not be evaluated.'' newExecutionError))))
      | Inr context' \<Rightarrow> Inr (context' ''Preset''))"

subsection \<open>\<^verbatim>\<open>removeSelfImportStatement\<close> and \<^verbatim>\<open>import\<close>\<close>

text \<open>\<^verbatim>\<open>script.split(/\r\n|\r|\n/)\<close>, with the piece read so far.\<close>

fun splitBreaksFrom :: "string \<Rightarrow> string \<Rightarrow> string list" where
  "splitBreaksFrom cur [] = [cur]"
| "splitBreaksFrom cur [c] = (if c = CR \<or> c = LF then [cur, []] else [cur @ [c]])"
| "splitBreaksFrom cur (c # d # ds) =
     (if c = CR \<and> d = LF then cur # splitBreaksFrom [] ds
      else if c = CR \<or> c = LF then cur # splitBreaksFrom [] (d # ds)
      else splitBreaksFrom (cur @ [c]) (d # ds))"

definition splitLineBreaks :: "string \<Rightarrow> string list" where
  "splitLineBreaks script = splitBreaksFrom [] script"

text \<open>\<open>packageName\<close> stands for \<^verbatim>\<open>getPackage().name\<close>.\<close>

definition removeSelfImportStatement :: "string \<Rightarrow> string \<Rightarrow> string" where
  "removeSelfImportStatement packageName script =
     joinNewline (filter
       (\<lambda>line.
          let lineImports =
                list_ex (\<lambda>statement. includesString line statement) [''import'', ''require''];
              lineMentionsImportValue =
                list_ex (\<lambda>imp. includesString line imp)
                  [packageName, ''color'', ''@/api'', ''use-preset'']
          in \<not> (lineImports \<and> lineMentionsImportValue))
       (splitLineBreaks script))"

text \<open>\<^verbatim>\<open>import(directory)\<close>.\<close>

definition importPreset ::
  "(string \<Rightarrow> string \<Rightarrow> string) \<Rightarrow> (string \<Rightarrow> 'e + string option) \<Rightarrow> (string \<Rightarrow> string)
    \<Rightarrow> string \<Rightarrow> (string \<Rightarrow> 'e + 'c) \<Rightarrow> ('c \<Rightarrow> (string \<rightharpoonup> 'v) \<Rightarrow> 'e + (string \<rightharpoonup> 'v))
    \<Rightarrow> 'v host \<Rightarrow> fileSystem \<Rightarrow> string \<Rightarrow> 'e thrown + 'v option" where
  "importPreset pathJoin manifestPreset magenta packageName transformSync runInContext h fs
       directory =
     (case findConfiguration pathJoin manifestPreset magenta fs directory of
        Inl e \<Rightarrow> Inl e
      | Inr file \<Rightarrow>
          (case readFileSync fs file of
             Inl e \<Rightarrow> Inl (SystemError e)
           | Inr script \<Rightarrow>
               evaluateConfiguration transformSync runInContext h
                 (removeSelfImportStatement packageName script)))"

section \<open>The logger\<close>

text \<open>
  What \<^verbatim>\<open>Logger.exit\<close> acts on: the log of the base logger, one entry (level,
  message, further arguments) for each call of \<^verbatim>\<open>this._logger.log\<close>, and the exit
  status of the process, \<open>None\<close> while it runs.
\<close>

record 'm process =
  logs :: "(string \<times> 'm \<times> string list) list"
  exitStatus :: "int option"

definition loggerLog :: "string \<Rightarrow> 'm \<Rightarrow> string list \<Rightarrow> 'm process \<Rightarrow> 'm process" where
  "loggerLog level message args p = p\<lparr>logs := logs p @ [(level, message, args)]\<rparr>"

definition processExit :: "int \<Rightarrow> 'm process \<Rightarrow> 'm process" where
  "processExit code p = p\<lparr>exitStatus := Some code\<rparr>"

text \<open>\<^verbatim>\<open>Logger.exit(message, ...args)\<close>.\<close>

definition exit :: "'m \<Rightarrow> string list \<Rightarrow> 'm process \<Rightarrow> 'm process" where
  "exit message args p = processExit 0 (loggerLog ''error'' message args p)"

section \<open>Lemmas on lines and on the loop\<close>

lemma splitFrom_not_Nil: "splitFrom cur s \<noteq> []"
  by (induction s arbitrary: cur) auto

lemma joinNewline_Cons: "ls \<noteq> [] \<Longrightarrow> joinNewline (l # ls) = l @ LF # joinNewline ls"
  by (cases ls) auto

lemma joinNewline_splitFrom: "joinNewline (splitFrom cur s) = cur @ s"
  by (induction s arbitrary: cur) (auto simp: joinNewline_Cons splitFrom_not_Nil)

lemma joinNewline_splitNewline: "joinNewline (splitNewline s) = s"
  by (simp add: splitNewline_def joinNewline_splitFrom)

lemma indentedLine_ok:
  "indentOk ai \<Longrightarrow> indentedLine dI ai prev l = Inr (linePrefix dI ai prev @ l)"
  by (cases ai) (auto simp: indentedLine_def linePrefix_def Let_def)

lemma addLines_ok:
  "indentOk ai \<Longrightarrow> addLines dI ai prev ls fl = Inr (fl @ block dI ai ls prev)"
  by (induction ls arbitrary: fl) (auto simp: indentedLine_ok block_def)

lemma scanLines_no_match:
  "\<forall>l\<in>set ls. \<not> matches l \<Longrightarrow> \<not> hasMatch st \<Longrightarrow>
   scanLines dI matches cs ai (ls @ rest) st =
   scanLines dI matches cs ai rest
     (st\<lparr>finalLines := finalLines st @ ls, previousLine := last (previousLine st # ls)\<rparr>)"
  by (induction ls arbitrary: st) (auto simp: Let_def)

lemma scanLines_countdown:
  "hasMatch st \<Longrightarrow> amountOfLinesBeforeAdding st = int (length mid) \<Longrightarrow>
   scanLines dI matches cs ai (mid @ a # rest) st =
   (case addLines dI ai a cs (finalLines st @ mid @ [a]) of
      Inl e \<Rightarrow> Inl e
    | Inr ls \<Rightarrow> scanLines dI matches cs ai rest
        \<lparr>finalLines = ls, amountOfLinesBeforeAdding = 0, previousLine = a, hasMatch = False\<rparr>)"
proof (induction mid arbitrary: st)
  case Nil
  then show ?case by (cases st) (auto simp: Let_def split: sum.splits)
next
  case (Cons x mid)
  then show ?case by (auto simp: Let_def)
qed

lemma scanLines_first_match:
  assumes "\<not> hasMatch st" "matches m" "amountOfLinesBeforeAdding st = int (length mid)"
  shows "scanLines dI matches cs ai (m # mid @ rest) st =
   (case addLines dI ai (last (m # mid)) cs (finalLines st @ m # mid) of
      Inl e \<Rightarrow> Inl e
    | Inr ls \<Rightarrow> scanLines dI matches cs ai rest
        \<lparr>finalLines = ls, amountOfLinesBeforeAdding = 0,
          previousLine = last (m # mid), hasMatch = False\<rparr>)"
proof (cases mid rule: rev_cases)
  case Nil
  with assms show ?thesis by (cases st) (auto simp: Let_def split: sum.splits)
next
  case (snoc mid' a)
  let ?st = "st\<lparr>finalLines := finalLines st @ [m], previousLine := m, hasMatch := True,
      amountOfLinesBeforeAdding := amountOfLinesBeforeAdding st - 1\<rparr>"
  have step: "scanLines dI matches cs ai (m # mid @ rest) st =
      scanLines dI matches cs ai (mid' @ a # rest) ?st"
    using assms snoc by (simp add: Let_def)
  have count: "scanLines dI matches cs ai (mid' @ a # rest) ?st =
    (case addLines dI ai a cs (finalLines ?st @ mid' @ [a]) of
      Inl e \<Rightarrow> Inl e
    | Inr ls \<Rightarrow> scanLines dI matches cs ai rest
        \<lparr>finalLines = ls, amountOfLinesBeforeAdding = 0, previousLine = a, hasMatch = False\<rparr>)"
    using assms snoc by (intro scanLines_countdown) auto
  have anchor: "last (m # mid) = a" and buffer: "finalLines ?st @ mid' @ [a] = finalLines st @ m # mid"
    using snoc by simp_all
  show ?thesis
    unfolding step count anchor buffer ..
qed

lemma scanLines_skip0:
  "indentOk ai \<Longrightarrow> \<not> hasMatch st \<Longrightarrow> amountOfLinesBeforeAdding st \<le> 0 \<Longrightarrow>
   scanLines dI matches cs ai ls st =
   Inr (st\<lparr>finalLines := finalLines st @ insertAfterEach matches (block dI ai cs) ls,
           previousLine := last (previousLine st # ls)\<rparr>)"
  by (induction ls arbitrary: st) (auto simp: Let_def addLines_ok insertAfterEach_def)

lemma rev_insertAfterEach:
  "rev (insertAfterEach matches (\<lambda>l. rev (blk l)) (rev ls)) = insertBeforeEach matches blk ls"
  by (induction ls) (auto simp: insertAfterEach_def insertBeforeEach_def)

lemma block_rev: "block dI ai (rev cs) a = rev (block dI ai cs a)"
  by (simp add: block_def rev_map)

lemma length_insertAfterEach:
  "length (insertAfterEach matches (block dI ai cs) ls) = length ls + length (filter matches ls) * length cs"
  by (induction ls) (auto simp: insertAfterEach_def block_def)

lemma length_insertBeforeEach:
  "length (insertBeforeEach matches (block dI ai cs) ls) = length ls + length (filter matches ls) * length cs"
  by (induction ls) (auto simp: insertBeforeEach_def block_def)

lemma performLineAddition_resolved:
  assumes "contextualizeValue preset (search addition) = Some matches"
      and "wrap (contextualizeValue preset (content addition)) \<noteq> []"
  shows "performLineAddition dI preset fileContent addition =
     (case scanLines dI matches
             (if contextualizeValue preset (direction addition) = Above
              then rev (wrap (contextualizeValue preset (content addition)))
              else wrap (contextualizeValue preset (content addition)))
             (contextualizeValue preset (indent addition))
             (if contextualizeValue preset (direction addition) = Above
              then rev (splitNewline fileContent) else splitNewline fileContent)
             \<lparr>finalLines = [],
                amountOfLinesBeforeAdding = contextualizeValue preset (amountOfLinesToSkip addition),
                previousLine = [], hasMatch = False\<rparr> of
        Inl e \<Rightarrow> Inl e
      | Inr st \<Rightarrow> Inr (if contextualizeValue preset (direction addition) = Above
                       then joinNewline (rev (finalLines st)) else joinNewline (finalLines st)))"
  using assms by (simp add: performLineAddition_def Let_def)

lemma rev_insertAfterEach_block:
  "rev (insertAfterEach matches (block dI ai (rev cs)) (rev ls)) =
   insertBeforeEach matches (block dI ai cs) ls"
proof -
  have "block dI ai (rev cs) = (\<lambda>l. rev (block dI ai cs l))"
    by (rule ext) (simp add: block_rev)
  then show ?thesis by (simp add: rev_insertAfterEach)
qed

lemma performLineAddition_skip0:
  assumes "contextualizeValue preset (search addition) = Some matches"
      and "wrap (contextualizeValue preset (content addition)) = contentToAdd"
      and "contentToAdd \<noteq> []"
      and "contextualizeValue preset (amountOfLinesToSkip addition) = 0"
      and "contextualizeValue preset (indent addition) = additionIndent"
      and "indentOk additionIndent"
  shows "performLineAddition detectIndent preset fileContent addition =
           Inr (joinNewline
             (if contextualizeValue preset (direction addition) = Above
              then insertBeforeEach matches (block detectIndent additionIndent contentToAdd)
                     (splitNewline fileContent)
              else insertAfterEach matches (block detectIndent additionIndent contentToAdd)
                     (splitNewline fileContent)))"
  using assms
  by (simp add: performLineAddition_resolved scanLines_skip0 rev_insertAfterEach_block)

lemma insertAfterEach_no_match:
  "\<forall>l\<in>set ls. \<not> matches l \<Longrightarrow> insertAfterEach matches blk ls = ls"
  by (induction ls) (auto simp: insertAfterEach_def)

lemma insertBeforeEach_no_match:
  "\<forall>l\<in>set ls. \<not> matches l \<Longrightarrow> insertBeforeEach matches blk ls = ls"
  by (induction ls) (auto simp: insertBeforeEach_def)

lemma insertAfterEach_single:
  assumes "\<forall>l\<in>set pre. \<not> matches l" "matches a" "\<forall>l\<in>set post. \<not> matches l"
  shows "insertAfterEach matches blk (pre @ a # post) = pre @ a # blk a @ post"
proof -
  have "insertAfterEach matches blk (pre @ a # post) =
        insertAfterEach matches blk pre @ (a # blk a) @ insertAfterEach matches blk post"
    using assms(2) by (simp add: insertAfterEach_def)
  then show ?thesis
    using assms by (simp add: insertAfterEach_no_match)
qed

lemma insertBeforeEach_single:
  assumes "\<forall>l\<in>set pre. \<not> matches l" "matches a" "\<forall>l\<in>set post. \<not> matches l"
  shows "insertBeforeEach matches blk (pre @ a # post) = pre @ blk a @ a # post"
proof -
  have "insertBeforeEach matches blk (pre @ a # post) =
        insertBeforeEach matches blk pre @ (blk a @ [a]) @ insertBeforeEach matches blk post"
    using assms(2) by (simp add: insertBeforeEach_def)
  then show ?thesis
    using assms by (simp add: insertBeforeEach_no_match)
qed

lemma scanLines_above:
  assumes indent: "indentOk additionIndent"
      and post: "\<forall>l\<in>set post. \<not> matches l"
      and m: "matches m"
  shows "scanLines detectIndent matches (rev contentToAdd) additionIndent
           (rev (pre @ mid @ m # post))
           \<lparr>finalLines = [], amountOfLinesBeforeAdding = int (length mid),
              previousLine = [], hasMatch = False\<rparr> =
         Inr \<lparr>finalLines =
                 rev (insertBeforeEach matches (block detectIndent additionIndent contentToAdd) pre
                      @ block detectIndent additionIndent contentToAdd (hd (mid @ [m]))
                      @ mid @ m # post),
               amountOfLinesBeforeAdding = 0,
               previousLine = last (hd (mid @ [m]) # rev pre),
               hasMatch = False\<rparr>"
proof -
  let ?cs = "rev contentToAdd"
  let ?st0 = "\<lparr>finalLines = [], amountOfLinesBeforeAdding = int (length mid),
                 previousLine = [], hasMatch = False\<rparr>"
  let ?st1 = "?st0\<lparr>finalLines := finalLines ?st0 @ rev post,
                     previousLine := last (previousLine ?st0 # rev post)\<rparr>"
  let ?st2 = "\<lparr>finalLines = rev post @ m # rev mid
                   @ block detectIndent additionIndent ?cs (last (m # rev mid)),
                 amountOfLinesBeforeAdding = 0, previousLine = last (m # rev mid),
                 hasMatch = False\<rparr>"
  have anchor: "last (m # rev mid) = hd (mid @ [m])"
    by (cases mid) auto
  have "scanLines detectIndent matches ?cs additionIndent (rev post @ m # rev mid @ rev pre) ?st0 =
        scanLines detectIndent matches ?cs additionIndent (m # rev mid @ rev pre) ?st1"
    using post by (intro scanLines_no_match) auto
  also have "\<dots> = scanLines detectIndent matches ?cs additionIndent (rev pre) ?st2"
    using m indent by (subst scanLines_first_match) (auto simp: addLines_ok)
  also have "\<dots> = Inr (?st2\<lparr>finalLines := finalLines ?st2
        @ insertAfterEach matches (block detectIndent additionIndent ?cs) (rev pre),
        previousLine := last (previousLine ?st2 # rev pre)\<rparr>)"
    using indent by (intro scanLines_skip0) auto
  finally show ?thesis
    by (simp add: anchor block_rev rev_insertAfterEach_block [symmetric] last_rev hd_append)
qed

subsection \<open>Characters kept by the line addition\<close>

lemma set_joinNewline:
  "set (joinNewline ls) = (\<Union>l\<in>set ls. set l) \<union> (if 2 \<le> length ls then {LF} else {})"
  by (induction ls rule: joinNewline.induct) auto

lemma addLines_keeps:
  "addLines dI ai prev cs fl = Inr fl' \<Longrightarrow> set fl \<subseteq> set fl' \<and> length fl \<le> length fl'"
proof (induction cs arbitrary: fl)
  case Nil
  then show ?case by simp
next
  case (Cons c cs)
  then obtain x where "indentedLine dI ai prev c = Inr x"
      and "addLines dI ai prev cs (fl @ [x]) = Inr fl'"
    by (auto split: sum.splits)
  with Cons.IH [of "fl @ [x]"] show ?case by auto
qed

lemma scanLines_keeps:
  "scanLines dI matches cs ai ls st = Inr st' \<Longrightarrow>
   set (finalLines st) \<union> set ls \<subseteq> set (finalLines st')
   \<and> length (finalLines st) + length ls \<le> length (finalLines st')"
proof (induction ls arbitrary: st)
  case Nil
  then show ?case by simp
next
  case (Cons l ls)
  let ?st1 = "st\<lparr>finalLines := finalLines st @ [l], previousLine := l\<rparr>"
  consider (pass) "\<not> matches l" "\<not> hasMatch st"
    | (skip) "matches l \<or> hasMatch st" "0 < amountOfLinesBeforeAdding st"
    | (fire) "matches l \<or> hasMatch st" "\<not> 0 < amountOfLinesBeforeAdding st"
    by blast
  then show ?case
  proof cases
    case pass
    with Cons.prems have "scanLines dI matches cs ai ls ?st1 = Inr st'"
      by (simp add: Let_def)
    from Cons.IH [OF this] show ?thesis by auto
  next
    case skip
    let ?st2 = "?st1\<lparr>hasMatch := True,
        amountOfLinesBeforeAdding := amountOfLinesBeforeAdding st - 1\<rparr>"
    from skip Cons.prems have "scanLines dI matches cs ai ls ?st2 = Inr st'"
      by (auto simp: Let_def)
    from Cons.IH [OF this] show ?thesis by auto
  next
    case fire
    with Cons.prems obtain fl where add: "addLines dI ai l cs (finalLines st @ [l]) = Inr fl"
      and rest: "scanLines dI matches cs ai ls
          (?st1\<lparr>hasMatch := True, hasMatch := False, finalLines := fl\<rparr>) = Inr st'"
      by (auto simp: Let_def split: sum.splits)
    from addLines_keeps [OF add] Cons.IH [OF rest] show ?thesis by auto
  qed
qed

lemma indentedLine_no_CR:
  assumes "indentedLine dI ai prev c = Inr x" "CR \<notin> set c" "\<forall>l. CR \<notin> set (dI l)"
      and "\<forall>s. ai = IndentString s \<longrightarrow> CR \<notin> set s"
  shows "CR \<notin> set x"
proof (cases ai)
  case IndentUndefined
  with assms show ?thesis by (auto simp: indentedLine_def Let_def)
next
  case (IndentNumber n)
  with assms show ?thesis
    by (cases "n = 0"; cases "n < 0") (auto simp: indentedLine_def Let_def)
next
  case (IndentString s)
  with assms have s: "CR \<notin> set s" by simp
  show ?thesis
  proof (cases "s = [] \<or> s = ''double''")
    case True
    with assms(1-3) IndentString show ?thesis
      by (auto simp: indentedLine_def Let_def)
  next
    case False
    with assms(1,2) IndentString s show ?thesis
      by (auto simp: indentedLine_def Let_def)
  qed
qed

lemma addLines_no_CR:
  assumes cs: "\<forall>c\<in>set cs. CR \<notin> set c" and dI: "\<forall>l. CR \<notin> set (dI l)"
      and ai: "\<forall>s. ai = IndentString s \<longrightarrow> CR \<notin> set s"
  shows "addLines dI ai prev cs fl = Inr fl' \<Longrightarrow> \<forall>l\<in>set fl. CR \<notin> set l
         \<Longrightarrow> \<forall>l\<in>set fl'. CR \<notin> set l"
  using cs
proof (induction cs arbitrary: fl)
  case Nil
  then show ?case by simp
next
  case (Cons c cs)
  from Cons.prems(1) obtain x where x: "indentedLine dI ai prev c = Inr x"
      and rest: "addLines dI ai prev cs (fl @ [x]) = Inr fl'"
    by (auto split: sum.splits)
  from Cons.prems(3) have c: "CR \<notin> set c" and tail: "\<forall>c\<in>set cs. CR \<notin> set c"
    by simp_all
  have "CR \<notin> set x"
    using indentedLine_no_CR [OF x c dI ai] .
  with Cons.prems(2) have "\<forall>l\<in>set (fl @ [x]). CR \<notin> set l" by simp
  from Cons.IH [OF rest this tail] show ?case .
qed

lemma scanLines_no_CR:
  assumes cs: "\<forall>c\<in>set cs. CR \<notin> set c" and dI: "\<forall>l. CR \<notin> set (dI l)"
      and ai: "\<forall>s. ai = IndentString s \<longrightarrow> CR \<notin> set s"
  shows "scanLines dI matches cs ai ls st = Inr st' \<Longrightarrow>
         \<forall>l\<in>set (finalLines st). CR \<notin> set l \<Longrightarrow> \<forall>l\<in>set ls. CR \<notin> set l \<Longrightarrow>
         \<forall>l\<in>set (finalLines st'). CR \<notin> set l"
proof (induction ls arbitrary: st)
  case Nil
  then show ?case by simp
next
  case (Cons l ls)
  let ?st1 = "st\<lparr>finalLines := finalLines st @ [l], previousLine := l\<rparr>"
  have buf: "\<forall>k\<in>set (finalLines st @ [l]). CR \<notin> set k" and tail: "\<forall>k\<in>set ls. CR \<notin> set k"
    using Cons.prems(2,3) by simp_all
  consider (pass) "\<not> matches l" "\<not> hasMatch st"
    | (skip) "matches l \<or> hasMatch st" "0 < amountOfLinesBeforeAdding st"
    | (fire) "matches l \<or> hasMatch st" "\<not> 0 < amountOfLinesBeforeAdding st"
    by blast
  then show ?case
  proof cases
    case pass
    with Cons.prems(1) have "scanLines dI matches cs ai ls ?st1 = Inr st'"
      by (simp add: Let_def)
    from Cons.IH [OF this _ tail] buf show ?thesis by simp
  next
    case skip
    let ?st2 = "?st1\<lparr>hasMatch := True,
        amountOfLinesBeforeAdding := amountOfLinesBeforeAdding st - 1\<rparr>"
    from skip Cons.prems(1) have "scanLines dI matches cs ai ls ?st2 = Inr st'"
      by (auto simp: Let_def)
    from Cons.IH [OF this _ tail] buf show ?thesis by simp
  next
    case fire
    with Cons.prems(1) obtain fl where add: "addLines dI ai l cs (finalLines st @ [l]) = Inr fl"
      and rest: "scanLines dI matches cs ai ls
          (?st1\<lparr>hasMatch := True, hasMatch := False, finalLines := fl\<rparr>) = Inr st'"
      by (auto simp: Let_def split: sum.splits)
    have "\<forall>k\<in>set fl. CR \<notin> set k"
      using addLines_no_CR [OF cs dI ai add buf] .
    with Cons.IH [OF rest _ tail] show ?thesis by simp
  qed
qed

lemma set_splitNewline: "l \<in> set (splitNewline s) \<Longrightarrow> set l \<subseteq> set s"
proof -
  assume "l \<in> set (splitNewline s)"
  then have "set l \<subseteq> set (joinNewline (splitNewline s))"
    unfolding set_joinNewline by blast
  then show ?thesis by (simp add: joinNewline_splitNewline)
qed

lemma set_joinNewline_mono:
  assumes "set ls \<subseteq> set ks" "length ls \<le> length ks"
  shows "set (joinNewline ls) \<subseteq> set (joinNewline ks)"
  using assms unfolding set_joinNewline by (auto split: if_splits)

lemma performLineAddition_keeps:
  assumes "performLineAddition detectIndent preset fileContent addition = Inr output"
  shows "set fileContent \<subseteq> set output
         \<and> (CR \<notin> set fileContent
            \<and> (\<forall>l\<in>set (wrap (contextualizeValue preset (content addition))). CR \<notin> set l)
            \<and> (\<forall>l. CR \<notin> set (detectIndent l))
            \<and> (\<forall>s. contextualizeValue preset (indent addition) = IndentString s \<longrightarrow> CR \<notin> set s)
            \<longrightarrow> CR \<notin> set output)"
proof (cases "contextualizeValue preset (search addition) = None
    \<or> wrap (contextualizeValue preset (content addition)) = []")
  case True
  with assms have "output = fileContent"
    by (auto simp: performLineAddition_def Let_def split: option.splits)
  then show ?thesis by simp
next
  case False
  then obtain matches where search: "contextualizeValue preset (search addition) = Some matches"
    and content: "wrap (contextualizeValue preset (content addition)) \<noteq> []"
    by auto
  let ?above = "contextualizeValue preset (direction addition) = Above"
  let ?cs = "if ?above then rev (wrap (contextualizeValue preset (content addition)))
             else wrap (contextualizeValue preset (content addition))"
  let ?ls = "if ?above then rev (splitNewline fileContent) else splitNewline fileContent"
  let ?st0 = "\<lparr>finalLines = [],
      amountOfLinesBeforeAdding = contextualizeValue preset (amountOfLinesToSkip addition),
      previousLine = [], hasMatch = False\<rparr>"
  from assms obtain st where
    scan: "scanLines detectIndent matches ?cs (contextualizeValue preset (indent addition)) ?ls ?st0 = Inr st"
    and out: "output = joinNewline (if ?above then rev (finalLines st) else finalLines st)"
    unfolding performLineAddition_resolved [OF search content]
    by (auto split: sum.splits)
  let ?fl = "if ?above then rev (finalLines st) else finalLines st"
  have "set (splitNewline fileContent) \<subseteq> set ?fl"
    and "length (splitNewline fileContent) \<le> length ?fl"
    using scanLines_keeps [OF scan] by (auto split: if_splits)
  then have "set (joinNewline (splitNewline fileContent)) \<subseteq> set output"
    unfolding out by (rule set_joinNewline_mono)
  then have kept: "set fileContent \<subseteq> set output"
    by (simp add: joinNewline_splitNewline)
  have "CR \<notin> set output"
    if h: "CR \<notin> set fileContent"
      "\<forall>l\<in>set (wrap (contextualizeValue preset (content addition))). CR \<notin> set l"
      "\<forall>l. CR \<notin> set (detectIndent l)"
      "\<forall>s. contextualizeValue preset (indent addition) = IndentString s \<longrightarrow> CR \<notin> set s"
  proof -
    have lines: "\<forall>l\<in>set ?ls. CR \<notin> set l"
      using h(1) set_splitNewline by (auto split: if_splits)
    have cs: "\<forall>c\<in>set ?cs. CR \<notin> set c"
      using h(2) by (auto split: if_splits)
    have "\<forall>l\<in>set (finalLines st). CR \<notin> set l"
      using scanLines_no_CR [OF cs h(3) h(4) scan _ lines] by simp
    then show ?thesis
      unfolding out set_joinNewline by (auto split: if_splits)
  qed
  with kept show ?thesis by blast
qed

lemma indentedLine_Inr:
  assumes "indentedLine dI ai prev c = Inr x"
  shows "x = linePrefix dI ai prev @ c"
proof (cases ai)
  case IndentUndefined
  with assms show ?thesis by (auto simp: indentedLine_def linePrefix_def Let_def)
next
  case (IndentNumber n)
  with assms show ?thesis
    by (cases "n = 0"; cases "n < 0") (auto simp: indentedLine_def linePrefix_def Let_def)
next
  case (IndentString s)
  show ?thesis
  proof (cases "s = [] \<or> s = ''double''")
    case True
    with assms IndentString show ?thesis
      by (auto simp: indentedLine_def linePrefix_def Let_def)
  next
    case False
    with assms IndentString show ?thesis
      by (auto simp: indentedLine_def linePrefix_def Let_def)
  qed
qed

lemma addLines_Inr:
  "addLines dI ai prev cs fl = Inr fl' \<Longrightarrow> fl' = fl @ block dI ai cs prev"
proof (induction cs arbitrary: fl)
  case Nil
  then show ?case by (simp add: block_def)
next
  case (Cons c cs)
  from Cons.prems obtain x where x: "indentedLine dI ai prev c = Inr x"
      and rest: "addLines dI ai prev cs (fl @ [x]) = Inr fl'"
    by (auto split: sum.splits)
  from Cons.IH [OF rest] indentedLine_Inr [OF x] show ?case
    by (simp add: block_def)
qed

lemma scanLines_copies:
  "scanLines dI matches cs ai ls st = Inr st' \<Longrightarrow>
   \<exists>bs. list_all2 (\<lambda>l b. b = [] \<or> b = block dI ai cs l) ls bs
        \<and> finalLines st' = finalLines st @ concat (map2 (\<lambda>l b. l # b) ls bs)"
proof (induction ls arbitrary: st)
  case Nil
  then show ?case by simp
next
  case (Cons l ls)
  let ?st1 = "st\<lparr>finalLines := finalLines st @ [l], previousLine := l\<rparr>"
  consider (pass) "\<not> matches l" "\<not> hasMatch st"
    | (skip) "matches l \<or> hasMatch st" "0 < amountOfLinesBeforeAdding st"
    | (fire) "matches l \<or> hasMatch st" "\<not> 0 < amountOfLinesBeforeAdding st"
    by blast
  then show ?case
  proof cases
    case pass
    with Cons.prems have "scanLines dI matches cs ai ls ?st1 = Inr st'"
      by (simp add: Let_def)
    from Cons.IH [OF this] obtain bs
      where bs: "list_all2 (\<lambda>l b. b = [] \<or> b = block dI ai cs l) ls bs"
        and fl: "finalLines st' = finalLines ?st1 @ concat (map2 (\<lambda>l b. l # b) ls bs)"
      by blast
    have "list_all2 (\<lambda>l b. b = [] \<or> b = block dI ai cs l) (l # ls) ([] # bs)"
      using bs by simp
    moreover have "finalLines st' =
        finalLines st @ concat (map2 (\<lambda>l b. l # b) (l # ls) ([] # bs))"
      using fl by simp
    ultimately show ?thesis by blast
  next
    case skip
    let ?st2 = "?st1\<lparr>hasMatch := True,
        amountOfLinesBeforeAdding := amountOfLinesBeforeAdding st - 1\<rparr>"
    from skip Cons.prems have "scanLines dI matches cs ai ls ?st2 = Inr st'"
      by (auto simp: Let_def)
    from Cons.IH [OF this] obtain bs
      where bs: "list_all2 (\<lambda>l b. b = [] \<or> b = block dI ai cs l) ls bs"
        and fl: "finalLines st' = finalLines ?st2 @ concat (map2 (\<lambda>l b. l # b) ls bs)"
      by blast
    have "list_all2 (\<lambda>l b. b = [] \<or> b = block dI ai cs l) (l # ls) ([] # bs)"
      using bs by simp
    moreover have "finalLines st' =
        finalLines st @ concat (map2 (\<lambda>l b. l # b) (l # ls) ([] # bs))"
      using fl by simp
    ultimately show ?thesis by blast
  next
    case fire
    with Cons.prems obtain fl0 where add: "addLines dI ai l cs (finalLines st @ [l]) = Inr fl0"
      and rest: "scanLines dI matches cs ai ls
          (?st1\<lparr>hasMatch := True, hasMatch := False, finalLines := fl0\<rparr>) = Inr st'"
      by (auto simp: Let_def split: sum.splits)
    from Cons.IH [OF rest] obtain bs
      where bs: "list_all2 (\<lambda>l b. b = [] \<or> b = block dI ai cs l) ls bs"
        and fl: "finalLines st' = fl0 @ concat (map2 (\<lambda>l b. l # b) ls bs)"
      by auto
    have "list_all2 (\<lambda>l b. b = [] \<or> b = block dI ai cs l) (l # ls) (block dI ai cs l # bs)"
      using bs by simp
    moreover have "finalLines st' =
        finalLines st @ concat (map2 (\<lambda>l b. l # b) (l # ls) (block dI ai cs l # bs))"
      using fl addLines_Inr [OF add] by simp
    ultimately show ?thesis by blast
  qed
qed

lemma rev_concat_map2:
  assumes "length ls = length bs"
  shows "rev (concat (map2 (\<lambda>l b. l # b) ls bs)) =
         concat (map2 (\<lambda>l b. b @ [l]) (rev ls) (map rev (rev bs)))"
proof -
  have "rev (concat (map2 (\<lambda>l b. l # b) ls bs)) =
        concat (map (\<lambda>(l, b). rev b @ [l]) (rev (zip ls bs)))"
    by (simp add: rev_concat rev_map split_def comp_def)
  also have "rev (zip ls bs) = zip (rev ls) (rev bs)"
    using assms by (simp add: zip_rev)
  also have "concat (map (\<lambda>(l, b). rev b @ [l]) (zip (rev ls) (rev bs))) =
      concat (map2 (\<lambda>l b. b @ [l]) (rev ls) (map rev (rev bs)))"
    by (simp add: zip_map2 split_def comp_def)
  finally show ?thesis .
qed

lemma performLineAddition_copies:
  assumes "performLineAddition detectIndent preset fileContent addition = Inr output"
  shows "\<exists>blocks.
           list_all2
             (\<lambda>line b. b = [] \<or>
                b = block detectIndent (contextualizeValue preset (indent addition))
                      (wrap (contextualizeValue preset (content addition))) line)
             (splitNewline fileContent) blocks
           \<and> output = joinNewline (concat (map2
                (\<lambda>line b. if contextualizeValue preset (direction addition) = Above
                           then b @ [line] else line # b)
                (splitNewline fileContent) blocks))"
proof (cases "contextualizeValue preset (search addition) = None
    \<or> wrap (contextualizeValue preset (content addition)) = []")
  case True
  with assms have out: "output = fileContent"
    by (auto simp: performLineAddition_def Let_def split: option.splits)
  let ?ls = "splitNewline fileContent"
  let ?bs = "replicate (length ?ls) ([] :: string list)"
  have all: "list_all2
             (\<lambda>line b. b = [] \<or>
                b = block detectIndent (contextualizeValue preset (indent addition))
                      (wrap (contextualizeValue preset (content addition))) line) ?ls ?bs"
    by (simp add: list_all2_conv_all_nth)
  have same: "concat (map2 (\<lambda>line b. if c then b @ [line] else line # b) ls
      (replicate (length ls) [])) = ls" for c and ls :: "string list"
    by (induction ls) auto
  have "output = joinNewline (concat (map2
                (\<lambda>line b. if contextualizeValue preset (direction addition) = Above
                           then b @ [line] else line # b) ?ls ?bs))"
    unfolding same out by (simp add: joinNewline_splitNewline)
  with all show ?thesis by blast
next
  case False
  then obtain matches where search: "contextualizeValue preset (search addition) = Some matches"
    and content: "wrap (contextualizeValue preset (content addition)) \<noteq> []"
    by auto
  let ?above = "contextualizeValue preset (direction addition) = Above"
  let ?ai = "contextualizeValue preset (indent addition)"
  let ?content = "wrap (contextualizeValue preset (content addition))"
  let ?cs = "if ?above then rev ?content else ?content"
  let ?ls = "if ?above then rev (splitNewline fileContent) else splitNewline fileContent"
  let ?st0 = "\<lparr>finalLines = [],
      amountOfLinesBeforeAdding = contextualizeValue preset (amountOfLinesToSkip addition),
      previousLine = [], hasMatch = False\<rparr>"
  from assms obtain st where
    scan: "scanLines detectIndent matches ?cs ?ai ?ls ?st0 = Inr st"
    and out: "output = joinNewline (if ?above then rev (finalLines st) else finalLines st)"
    unfolding performLineAddition_resolved [OF search content]
    by (auto split: sum.splits)
  from scanLines_copies [OF scan] obtain bs
    where bs: "list_all2 (\<lambda>l b. b = [] \<or> b = block detectIndent ?ai ?cs l) ?ls bs"
      and fl: "finalLines st = concat (map2 (\<lambda>l b. l # b) ?ls bs)"
    by auto
  show ?thesis
  proof (cases ?above)
    case False
    with bs fl out show ?thesis by auto
  next
    case True
    let ?blocks = "map rev (rev bs)"
    from True bs have rbs: "list_all2 (\<lambda>l b. b = [] \<or> b = block detectIndent ?ai (rev ?content) l)
        (rev (splitNewline fileContent)) bs"
      by simp
    then have len: "length (rev (splitNewline fileContent)) = length bs"
      by (rule list_all2_lengthD)
    from rbs have "list_all2 (\<lambda>l b. b = [] \<or> b = block detectIndent ?ai (rev ?content) l)
        (splitNewline fileContent) (rev bs)"
      using list_all2_rev [of _ "rev (splitNewline fileContent)" bs] by simp
    then have all: "list_all2 (\<lambda>l b. b = [] \<or> b = block detectIndent ?ai ?content l)
        (splitNewline fileContent) ?blocks"
      by (auto simp: list_all2_map2 block_rev elim!: list_all2_mono)
    have "rev (finalLines st) =
        concat (map2 (\<lambda>l b. b @ [l]) (splitNewline fileContent) ?blocks)"
      using True fl rev_concat_map2 [OF len] by simp
    with True out have "output = joinNewline (concat (map2
                (\<lambda>line b. if ?above then b @ [line] else line # b)
                (splitNewline fileContent) ?blocks))"
      by simp
    with all show ?thesis by blast
  qed
qed

subsection \<open>Lemmas on the importer\<close>

lemma evaluation_error_fields:
  "stopsExecution (withCompleteStack error (withMessage text newExecutionError)) =
   \<lparr>userMessage = text, trace = Some error, halt = True\<rparr>"
  by (simp add: stopsExecution_def withCompleteStack_def withMessage_def newExecutionError_def)

lemma discovery_error_fields:
  "stopsExecution (withoutStack (withMessage text newExecutionError)) =
   \<lparr>userMessage = text, trace = None, halt = True\<rparr>"
  by (simp add: stopsExecution_def withoutStack_def withMessage_def newExecutionError_def)

lemma files_in_order:
  "files pathJoin directory =
     [pathJoin directory ''preset.ts'', pathJoin directory ''preset.js'',
      pathJoin directory ''preset.mjs'', pathJoin directory ''preset.cjs'',
      pathJoin directory ''src/preset.ts'', pathJoin directory ''src/preset.js'',
      pathJoin directory ''src/preset.mjs'', pathJoin directory ''src/preset.cjs'']"
  by (simp add: files_def paths_def extensions_def)

lemma specifiedConfiguration_declared:
  assumes "fs (pathJoin directory ''package.json'') = Some (File manifest)"
      and "manifestPreset manifest = Inr (Some preset)"
  shows "specifiedConfiguration pathJoin manifestPreset magenta fs directory =
     (case fs (pathJoin directory preset) of
        None \<Rightarrow> Inl (SystemError (ENOENT (pathJoin directory preset)))
      | Some (File script) \<Rightarrow> Inr (Some (pathJoin directory preset))
      | Some Directory \<Rightarrow>
          Inl (Execution \<lparr>userMessage = ''The specified configuration file does not exist (''
                               @ magenta (pathJoin directory preset) @ '').'',
                             trace = None, halt = True\<rparr>))"
  using assms
  by (simp add: specifiedConfiguration_def existsSync_def readFileSync_def statSyncIsFile_def
      discovery_error_fields Let_def split: option.splits node.splits)

lemma findConfiguration_declared_file:
  assumes "fs (pathJoin directory ''package.json'') = Some (File manifest)"
      and "manifestPreset manifest = Inr (Some preset)"
      and "fs (pathJoin directory preset) = Some (File script)"
  shows "findConfiguration pathJoin manifestPreset magenta fs directory =
         Inr (pathJoin directory preset)"
  using assms
  by (simp add: findConfiguration_def
      specifiedConfiguration_declared [where manifest = manifest and preset = preset])

lemma findConfiguration_declared_not_a_file:
  assumes "fs (pathJoin directory ''package.json'') = Some (File manifest)"
      and "manifestPreset manifest = Inr (Some preset)"
      and "fs (pathJoin directory preset) = Some Directory"
  shows "findConfiguration pathJoin manifestPreset magenta fs directory =
         Inl (Execution \<lparr>userMessage = ''The specified configuration file does not exist (''
                               @ magenta (pathJoin directory preset) @ '').'',
                            trace = None, halt = True\<rparr>)"
  using assms
  by (simp add: findConfiguration_def
      specifiedConfiguration_declared [where manifest = manifest and preset = preset])

lemma findConfiguration_guess:
  assumes "fs (pathJoin directory ''package.json'') = None
           \<or> (\<exists>manifest. fs (pathJoin directory ''package.json'') = Some (File manifest)
                 \<and> manifestPreset manifest = Inr None)"
  shows "findConfiguration pathJoin manifestPreset magenta fs directory =
     (case find (existsSync fs) (files pathJoin directory) of
        Some file \<Rightarrow> Inr file
      | None \<Rightarrow>
          Inl (Execution \<lparr>userMessage = ''The configuration file could not be found (tried in ''
                               @ magenta directory @ '').'',
                             trace = None, halt = True\<rparr>))"
  using assms
  by (auto simp: findConfiguration_def specifiedConfiguration_def existsSync_def
      readFileSync_def discovery_error_fields Let_def split: option.splits)

section \<open>Claims on the line addition\<close>

text \<open>
  C1 (as amended). When the resolved search is a regular expression, the resolved
  content list is non-empty, the resolved skip count is 0 and the indent is not a
  negative number, the loop inserts the block at every line that matches the search
  pattern, after it for the direction below and before it for the direction above:
  after an insertion \<open>hasMatch\<close> is reset to false and the next matching line
  triggers the next insertion. The number of inserted blocks is the number of
  matching lines, so there is exactly one insertion when exactly one line matches.
\<close>

theorem insertion_after_every_match:
  assumes search: "contextualizeValue preset (search addition) = Some matches"
      and content: "wrap (contextualizeValue preset (content addition)) = contentToAdd"
                   "contentToAdd \<noteq> []"
      and skip: "contextualizeValue preset (amountOfLinesToSkip addition) = 0"
      and indent: "contextualizeValue preset (indent addition) = additionIndent"
                  "indentOk additionIndent"
  shows "performLineAddition detectIndent preset fileContent addition =
           Inr (joinNewline
             (if contextualizeValue preset (direction addition) = Above
              then insertBeforeEach matches (block detectIndent additionIndent contentToAdd)
                     (splitNewline fileContent)
              else insertAfterEach matches (block detectIndent additionIndent contentToAdd)
                     (splitNewline fileContent)))
         \<and> length (insertBeforeEach matches (block detectIndent additionIndent contentToAdd)
                     (splitNewline fileContent)) =
             length (splitNewline fileContent)
               + length (filter matches (splitNewline fileContent)) * length contentToAdd
         \<and> length (insertAfterEach matches (block detectIndent additionIndent contentToAdd)
                     (splitNewline fileContent)) =
             length (splitNewline fileContent)
               + length (filter matches (splitNewline fileContent)) * length contentToAdd"
  using performLineAddition_skip0 [OF assms]
  by (simp add: length_insertAfterEach length_insertBeforeEach)

text \<open>
  C1 as stated fails: three lines match and the skip count is 0; the block is
  inserted three times, not once.
\<close>

theorem single_insertion_counterexample:
  "performLineAddition leadingWhitespace () (joinNewline [''b'', ''b'', ''b''])
     \<lparr>search = Literal (Some (literalPattern ''b'')), direction = Literal Below,
        content = Literal (Many [''X'']), indent = Literal IndentUndefined,
        amountOfLinesToSkip = Literal 0\<rparr>
   = Inr (joinNewline [''b'', ''X'', ''b'', ''X'', ''b'', ''X''])
   \<and> joinNewline [''b'', ''X'', ''b'', ''X'', ''b'', ''X'']
       \<noteq> joinNewline [''b'', ''X'', ''b'', ''b'']"
  by (simp add: performLineAddition_def splitNewline_def literalPattern_def
      leadingWhitespace_def indentedLine_def Let_def)

text \<open>The amended C1 at a concrete input: direction above, two lines, one space of indent.\<close>

theorem insertion_after_every_match_witness:
  "performLineAddition leadingWhitespace () (joinNewline [''a'', ''b'', ''c'', ''b''])
     \<lparr>search = Literal (Some (literalPattern ''b'')), direction = Literal Above,
        content = Literal (Many [''X'', ''Y'']), indent = Literal (IndentNumber 1),
        amountOfLinesToSkip = Literal 0\<rparr>
   = Inr (joinNewline [''a'', '' X'', '' Y'', ''b'', ''c'', '' X'', '' Y'', ''b''])"
  using insertion_after_every_match [of "()"
     "\<lparr>search = Literal (Some (literalPattern ''b'')), direction = Literal Above,
        content = Literal (Many [''X'', ''Y'']), indent = Literal (IndentNumber 1),
        amountOfLinesToSkip = Literal 0\<rparr>" "literalPattern ''b''" "[''X'', ''Y'']" "IndentNumber 1"
     leadingWhitespace "joinNewline [''a'', ''b'', ''c'', ''b'']"]
  by (simp add: splitNewline_def literalPattern_def insertBeforeEach_def block_def linePrefix_def)

text \<open>
  C2 (as amended). The skip budget is decremented on every scanned line from the
  first matching line on, whether that line matches the search pattern or not. For
  the direction below, a skip count of \<open>N\<close> therefore puts the first insertion after
  the line that stands \<open>N\<close> lines below the first matching line \<open>m\<close>; from there on
  the budget is 0 and every further matching line receives the block as well.
\<close>

theorem skip_counts_scanned_lines:
  assumes search: "contextualizeValue preset (search addition) = Some matches"
      and content: "wrap (contextualizeValue preset (content addition)) = contentToAdd"
                   "contentToAdd \<noteq> []"
      and dir: "contextualizeValue preset (direction addition) \<noteq> Above"
      and indent: "contextualizeValue preset (indent addition) = additionIndent"
                  "indentOk additionIndent"
      and lines: "splitNewline fileContent = pre @ m # mid @ rest"
      and pre: "\<forall>l\<in>set pre. \<not> matches l"
      and m: "matches m"
      and skip: "contextualizeValue preset (amountOfLinesToSkip addition) = int (length mid)"
  shows "performLineAddition detectIndent preset fileContent addition =
           Inr (joinNewline
             (pre @ m # mid
              @ block detectIndent additionIndent contentToAdd (last (m # mid))
              @ insertAfterEach matches (block detectIndent additionIndent contentToAdd) rest))"
proof -
  let ?st0 = "\<lparr>finalLines = [], amountOfLinesBeforeAdding = int (length mid),
                 previousLine = [], hasMatch = False\<rparr>"
  let ?st1 = "?st0\<lparr>finalLines := finalLines ?st0 @ pre,
                     previousLine := last (previousLine ?st0 # pre)\<rparr>"
  let ?st2 = "\<lparr>finalLines = pre @ m # mid
                   @ block detectIndent additionIndent contentToAdd (last (m # mid)),
                 amountOfLinesBeforeAdding = 0, previousLine = last (m # mid),
                 hasMatch = False\<rparr>"
  have "scanLines detectIndent matches contentToAdd additionIndent (pre @ m # mid @ rest) ?st0 =
        scanLines detectIndent matches contentToAdd additionIndent (m # mid @ rest) ?st1"
    using pre by (intro scanLines_no_match) auto
  also have "\<dots> = scanLines detectIndent matches contentToAdd additionIndent rest ?st2"
    using m indent(2) by (subst scanLines_first_match) (auto simp: addLines_ok)
  also have "\<dots> = Inr (?st2\<lparr>finalLines := finalLines ?st2
        @ insertAfterEach matches (block detectIndent additionIndent contentToAdd) rest,
        previousLine := last (previousLine ?st2 # rest)\<rparr>)"
    using indent(2) by (intro scanLines_skip0) auto
  finally show ?thesis
    using search content dir indent(1) skip lines
    by (simp add: performLineAddition_resolved)
qed

text \<open>
  C2 as stated fails. On its own example the result has six lines: the last
  \<^verbatim>\<open>b\<close> matches with a budget of 0 and receives the block too. And the budget is
  decremented on a line that does not match: with \<^verbatim>\<open>"a\nb\nc\nb\nd"\<close> and a skip
  count of 1 the first insertion is after \<^verbatim>\<open>c\<close>, not after the second \<^verbatim>\<open>b\<close>.
\<close>

theorem skip_qualifying_lines_counterexample:
  "performLineAddition leadingWhitespace () (joinNewline [''a'', ''b'', ''b'', ''b''])
     \<lparr>search = Literal (Some (literalPattern ''b'')), direction = Literal Below,
        content = Literal (Many [''X'']), indent = Literal IndentUndefined,
        amountOfLinesToSkip = Literal 1\<rparr>
   = Inr (joinNewline [''a'', ''b'', ''b'', ''X'', ''b'', ''X''])
   \<and> joinNewline [''a'', ''b'', ''b'', ''X'', ''b'', ''X'']
       \<noteq> joinNewline [''a'', ''b'', ''b'', ''X'', ''b'']
   \<and> performLineAddition leadingWhitespace () (joinNewline [''a'', ''b'', ''c'', ''b'', ''d''])
     \<lparr>search = Literal (Some (literalPattern ''b'')), direction = Literal Below,
        content = Literal (Many [''X'']), indent = Literal IndentUndefined,
        amountOfLinesToSkip = Literal 1\<rparr>
   = Inr (joinNewline [''a'', ''b'', ''c'', ''X'', ''b'', ''X'', ''d''])"
  by (simp add: performLineAddition_def splitNewline_def literalPattern_def
      leadingWhitespace_def indentedLine_def Let_def)

text \<open>The amended C2 at a concrete input: a skip count of 2 past two lines that do not match.\<close>

theorem skip_counts_scanned_lines_witness:
  "performLineAddition leadingWhitespace () (joinNewline [''a'', ''b'', ''c'', ''d'', ''b''])
     \<lparr>search = Literal (Some (literalPattern ''b'')), direction = Literal Below,
        content = Literal (Many [''X'']), indent = Literal IndentUndefined,
        amountOfLinesToSkip = Literal 2\<rparr>
   = Inr (joinNewline [''a'', ''b'', ''c'', ''d'', ''X'', ''b'', ''X''])"
  using skip_counts_scanned_lines [of "()"
     "\<lparr>search = Literal (Some (literalPattern ''b'')), direction = Literal Below,
        content = Literal (Many [''X'']), indent = Literal IndentUndefined,
        amountOfLinesToSkip = Literal 2\<rparr>" "literalPattern ''b''" "[''X'']" IndentUndefined
     "joinNewline [''a'', ''b'', ''c'', ''d'', ''b'']" "[''a'']" "''b''" "[''c'', ''d'']" "[''b'']"
     leadingWhitespace]
  by (simp add: splitNewline_def literalPattern_def insertAfterEach_def block_def linePrefix_def
      leadingWhitespace_def)

text \<open>
  C3. Content \<^verbatim>\<open>"1\n2\n3"\<close>, an anchor pattern matching \<^verbatim>\<open>2\<close>, inserted content
  \<^verbatim>\<open>["X"]\<close> and skip 0: direction below yields \<^verbatim>\<open>"1\n2\nX\n3"\<close> and direction
  above yields \<^verbatim>\<open>"1\nX\n2\n3"\<close>. In general, with direction above, the scan starts
  at the last line: when \<open>m\<close> is the last matching line of the file and the skip count
  is the number of lines \<open>mid\<close> directly above it, the inserted block stands
  immediately before the anchor line (the first line of \<open>mid\<close>, or \<open>m\<close> itself
  when the skip count is 0), its lines prefixed and in the order of the content list.
\<close>

theorem direction_symmetry:
  "performLineAddition leadingWhitespace () (joinNewline [''1'', ''2'', ''3''])
     \<lparr>search = Literal (Some (literalPattern ''2'')), direction = Literal Below,
        content = Literal (Many [''X'']), indent = Literal IndentUndefined,
        amountOfLinesToSkip = Literal 0\<rparr>
   = Inr (joinNewline [''1'', ''2'', ''X'', ''3''])
   \<and> performLineAddition leadingWhitespace () (joinNewline [''1'', ''2'', ''3''])
     \<lparr>search = Literal (Some (literalPattern ''2'')), direction = Literal Above,
        content = Literal (Many [''X'']), indent = Literal IndentUndefined,
        amountOfLinesToSkip = Literal 0\<rparr>
   = Inr (joinNewline [''1'', ''X'', ''2'', ''3''])
   \<and> (\<forall>detectIndent (preset :: 'p) fileContent addition matches contentToAdd additionIndent
         pre mid m post.
        contextualizeValue preset (search addition) = Some matches
        \<and> wrap (contextualizeValue preset (content addition)) = contentToAdd
        \<and> contentToAdd \<noteq> []
        \<and> contextualizeValue preset (direction addition) = Above
        \<and> contextualizeValue preset (indent addition) = additionIndent
        \<and> indentOk additionIndent
        \<and> splitNewline fileContent = pre @ mid @ m # post
        \<and> (\<forall>l\<in>set post. \<not> matches l)
        \<and> matches m
        \<and> contextualizeValue preset (amountOfLinesToSkip addition) = int (length mid)
        \<longrightarrow> performLineAddition detectIndent preset fileContent addition =
              Inr (joinNewline
                (insertBeforeEach matches (block detectIndent additionIndent contentToAdd) pre
                 @ map (\<lambda>lineToAdd. linePrefix detectIndent additionIndent (hd (mid @ [m])) @ lineToAdd)
                     contentToAdd
                 @ mid @ m # post)))"
proof (intro conjI allI impI)
  show "performLineAddition leadingWhitespace () (joinNewline [''1'', ''2'', ''3''])
     \<lparr>search = Literal (Some (literalPattern ''2'')), direction = Literal Below,
        content = Literal (Many [''X'']), indent = Literal IndentUndefined,
        amountOfLinesToSkip = Literal 0\<rparr>
   = Inr (joinNewline [''1'', ''2'', ''X'', ''3''])"
    by (simp add: performLineAddition_def splitNewline_def literalPattern_def
        leadingWhitespace_def indentedLine_def Let_def)
  show "performLineAddition leadingWhitespace () (joinNewline [''1'', ''2'', ''3''])
     \<lparr>search = Literal (Some (literalPattern ''2'')), direction = Literal Above,
        content = Literal (Many [''X'']), indent = Literal IndentUndefined,
        amountOfLinesToSkip = Literal 0\<rparr>
   = Inr (joinNewline [''1'', ''X'', ''2'', ''3''])"
    by (simp add: performLineAddition_def splitNewline_def literalPattern_def
        leadingWhitespace_def indentedLine_def Let_def)
next
  fix detectIndent and preset :: 'p and fileContent and addition :: "'p LineAddition"
    and matches contentToAdd additionIndent and pre mid :: "string list" and m post
  assume h: "contextualizeValue preset (search addition) = Some matches
        \<and> wrap (contextualizeValue preset (content addition)) = contentToAdd
        \<and> contentToAdd \<noteq> []
        \<and> contextualizeValue preset (direction addition) = Above
        \<and> contextualizeValue preset (indent addition) = additionIndent
        \<and> indentOk additionIndent
        \<and> splitNewline fileContent = pre @ mid @ m # post
        \<and> (\<forall>l\<in>set post. \<not> matches l)
        \<and> matches m
        \<and> contextualizeValue preset (amountOfLinesToSkip addition) = int (length mid)"
  then have "scanLines detectIndent matches (rev contentToAdd) additionIndent
           (rev (pre @ mid @ m # post))
           \<lparr>finalLines = [], amountOfLinesBeforeAdding = int (length mid),
              previousLine = [], hasMatch = False\<rparr> =
         Inr \<lparr>finalLines =
                 rev (insertBeforeEach matches (block detectIndent additionIndent contentToAdd) pre
                      @ block detectIndent additionIndent contentToAdd (hd (mid @ [m]))
                      @ mid @ m # post),
               amountOfLinesBeforeAdding = 0,
               previousLine = last (hd (mid @ [m]) # rev pre),
               hasMatch = False\<rparr>"
    by (intro scanLines_above) auto
  with h show "performLineAddition detectIndent preset fileContent addition =
              Inr (joinNewline
                (insertBeforeEach matches (block detectIndent additionIndent contentToAdd) pre
                 @ map (\<lambda>lineToAdd. linePrefix detectIndent additionIndent (hd (mid @ [m])) @ lineToAdd)
                     contentToAdd
                 @ mid @ m # post))"
    by (simp add: performLineAddition_resolved block_def del: rev_append rev.simps)
qed

text \<open>C3 at a concrete input: two lines inserted above an indented anchor.\<close>

theorem direction_symmetry_witness:
  "performLineAddition leadingWhitespace () (joinNewline [''1'', ''  2'', ''3''])
     \<lparr>search = Literal (Some (literalPattern ''2'')), direction = Literal Above,
        content = Literal (Many [''X'', ''Y'']), indent = Literal IndentUndefined,
        amountOfLinesToSkip = Literal 0\<rparr>
   = Inr (joinNewline [''1'', ''  X'', ''  Y'', ''  2'', ''3''])"
proof -
  have "contextualizeValue () (search \<lparr>search = Literal (Some (literalPattern ''2'')), direction = Literal Above,
        content = Literal (Many [''X'', ''Y'']), indent = Literal IndentUndefined,
        amountOfLinesToSkip = Literal 0\<rparr>) = Some (literalPattern ''2'')
        \<and> wrap (contextualizeValue () (content \<lparr>search = Literal (Some (literalPattern ''2'')), direction = Literal Above,
        content = Literal (Many [''X'', ''Y'']), indent = Literal IndentUndefined,
        amountOfLinesToSkip = Literal 0\<rparr>)) = [''X'', ''Y'']
        \<and> [''X'', ''Y''] \<noteq> []
        \<and> contextualizeValue () (direction \<lparr>search = Literal (Some (literalPattern ''2'')), direction = Literal Above,
        content = Literal (Many [''X'', ''Y'']), indent = Literal IndentUndefined,
        amountOfLinesToSkip = Literal 0\<rparr>) = Above
        \<and> contextualizeValue () (indent \<lparr>search = Literal (Some (literalPattern ''2'')), direction = Literal Above,
        content = Literal (Many [''X'', ''Y'']), indent = Literal IndentUndefined,
        amountOfLinesToSkip = Literal 0\<rparr>) = IndentUndefined
        \<and> indentOk IndentUndefined
        \<and> splitNewline (joinNewline [''1'', ''  2'', ''3'']) = [''1''] @ [] @ ''  2'' # [''3'']
        \<and> (\<forall>l\<in>set [''3'']. \<not> literalPattern ''2'' l)
        \<and> literalPattern ''2'' ''  2''
        \<and> contextualizeValue () (amountOfLinesToSkip \<lparr>search = Literal (Some (literalPattern ''2'')), direction = Literal Above,
        content = Literal (Many [''X'', ''Y'']), indent = Literal IndentUndefined,
        amountOfLinesToSkip = Literal 0\<rparr>) = int (length ([] :: string list))"
    by (simp add: splitNewline_def literalPattern_def)
  with direction_symmetry [where 'p = unit]
  have "performLineAddition leadingWhitespace () (joinNewline [''1'', ''  2'', ''3''])
     \<lparr>search = Literal (Some (literalPattern ''2'')), direction = Literal Above,
        content = Literal (Many [''X'', ''Y'']), indent = Literal IndentUndefined,
        amountOfLinesToSkip = Literal 0\<rparr> =
              Inr (joinNewline
                (insertBeforeEach (literalPattern ''2'') (block leadingWhitespace IndentUndefined [''X'', ''Y'']) [''1'']
                 @ map (\<lambda>lineToAdd. linePrefix leadingWhitespace IndentUndefined (hd ([] @ [''  2''])) @ lineToAdd)
                     [''X'', ''Y'']
                 @ [] @ ''  2'' # [''3'']))"
    by blast
  then show ?thesis
    by (simp add: insertBeforeEach_def literalPattern_def linePrefix_def leadingWhitespace_def)
qed

text \<open>
  C4. The content is returned unchanged whenever the resolved search is falsy, or
  the resolved content list is empty, or no line of the input matches the search
  pattern.
\<close>

theorem unchanged_without_anchor:
  assumes "contextualizeValue preset (search addition) = None
           \<or> wrap (contextualizeValue preset (content addition)) = []
           \<or> (\<exists>matches. contextualizeValue preset (search addition) = Some matches
                \<and> (\<forall>l\<in>set (splitNewline fileContent). \<not> matches l))"
  shows "performLineAddition detectIndent preset fileContent addition = Inr fileContent"
proof -
  consider (falsy) "contextualizeValue preset (search addition) = None"
    | (empty) "wrap (contextualizeValue preset (content addition)) = []"
    | (none) matches where "contextualizeValue preset (search addition) = Some matches"
        "wrap (contextualizeValue preset (content addition)) \<noteq> []"
        "\<forall>l\<in>set (splitNewline fileContent). \<not> matches l"
    using assms by (cases "wrap (contextualizeValue preset (content addition)) = []") auto
  then show ?thesis
  proof cases
    case falsy
    then show ?thesis by (simp add: performLineAddition_def Let_def)
  next
    case empty
    then show ?thesis by (simp add: performLineAddition_def Let_def split: option.splits)
  next
    case none
    have scan: "scanLines detectIndent matches cs ai ls st =
        Inr (st\<lparr>finalLines := finalLines st @ ls, previousLine := last (previousLine st # ls)\<rparr>)"
      if "\<forall>l\<in>set ls. \<not> matches l" "\<not> hasMatch st" for cs ai ls st
      using scanLines_no_match [of ls matches st detectIndent cs ai "[]"] that by simp
    show ?thesis
      using none
      by (simp add: performLineAddition_resolved scan joinNewline_splitNewline)
  qed
qed

text \<open>C4 at three concrete inputs, one for each of its three cases.\<close>

theorem unchanged_without_anchor_witness:
  "performLineAddition leadingWhitespace () (joinNewline [''a'', ''b''])
     \<lparr>search = Literal None, direction = Literal Below,
        content = Literal (Many [''X'']), indent = Literal IndentUndefined,
        amountOfLinesToSkip = Literal 0\<rparr> = Inr (joinNewline [''a'', ''b''])
   \<and> performLineAddition leadingWhitespace () (joinNewline [''a'', ''b''])
     \<lparr>search = Literal (Some (literalPattern ''b'')), direction = Literal Below,
        content = Literal (Many []), indent = Literal IndentUndefined,
        amountOfLinesToSkip = Literal 0\<rparr> = Inr (joinNewline [''a'', ''b''])
   \<and> performLineAddition leadingWhitespace () (joinNewline [''a'', ''b''])
     \<lparr>search = Literal (Some (literalPattern ''c'')), direction = Literal Above,
        content = Literal (Many [''X'']), indent = Literal IndentUndefined,
        amountOfLinesToSkip = Literal 0\<rparr> = Inr (joinNewline [''a'', ''b''])"
proof (intro conjI)
  show "performLineAddition leadingWhitespace () (joinNewline [''a'', ''b''])
     \<lparr>search = Literal None, direction = Literal Below,
        content = Literal (Many [''X'']), indent = Literal IndentUndefined,
        amountOfLinesToSkip = Literal 0\<rparr> = Inr (joinNewline [''a'', ''b''])"
    by (rule unchanged_without_anchor) simp
  show "performLineAddition leadingWhitespace () (joinNewline [''a'', ''b''])
     \<lparr>search = Literal (Some (literalPattern ''b'')), direction = Literal Below,
        content = Literal (Many []), indent = Literal IndentUndefined,
        amountOfLinesToSkip = Literal 0\<rparr> = Inr (joinNewline [''a'', ''b''])"
    by (rule unchanged_without_anchor) simp
  show "performLineAddition leadingWhitespace () (joinNewline [''a'', ''b''])
     \<lparr>search = Literal (Some (literalPattern ''c'')), direction = Literal Above,
        content = Literal (Many [''X'']), indent = Literal IndentUndefined,
        amountOfLinesToSkip = Literal 0\<rparr> = Inr (joinNewline [''a'', ''b''])"
    by (rule unchanged_without_anchor) (simp add: splitNewline_def literalPattern_def)
qed

text \<open>
  C5. One anchor line and the inserted content \<^verbatim>\<open>["bar"]\<close>: the inserted line is
  \<open>prefix @ ''bar''\<close>, where the prefix follows the resolved indent in the order the
  code tests it: a falsy indent (undefined, \<^verbatim>\<open>0\<close> or the empty string) gives the
  anchor's indentation unit; \<^verbatim>\<open>'double'\<close> gives that unit twice; a positive number
  \<open>n\<close> gives \<open>n\<close> spaces whatever the anchor's indentation is; any other
  string is the prefix itself. The statement holds for an indentation unit of any
  length, two characters included; a negative number is excluded by \<open>indentOk\<close>
  (\<^verbatim>\<open>' '.repeat\<close> throws).
\<close>

theorem indentation_modes:
  assumes search: "contextualizeValue preset (search addition) = Some matches"
      and content: "wrap (contextualizeValue preset (content addition)) = [''bar'']"
      and skip: "contextualizeValue preset (amountOfLinesToSkip addition) = 0"
      and indent: "contextualizeValue preset (indent addition) = additionIndent"
                  "indentOk additionIndent"
      and lines: "splitNewline fileContent = pre @ anchor # post"
      and pre: "\<forall>l\<in>set pre. \<not> matches l"
      and anchor: "matches anchor"
      and post: "\<forall>l\<in>set post. \<not> matches l"
  shows "\<exists>prefix.
           performLineAddition detectIndent preset fileContent addition =
             Inr (joinNewline
               (if contextualizeValue preset (direction addition) = Above
                then pre @ [prefix @ ''bar'', anchor] @ post
                else pre @ [anchor, prefix @ ''bar''] @ post))
           \<and> (falsy additionIndent \<longrightarrow> prefix = detectIndent anchor)
           \<and> (additionIndent = IndentString ''double''
                \<longrightarrow> prefix = detectIndent anchor @ detectIndent anchor)
           \<and> (\<forall>n. additionIndent = IndentNumber n \<and> 0 < n
                \<longrightarrow> prefix = replicate (nat n) CHR '' '')
           \<and> (\<forall>s. additionIndent = IndentString s \<and> s \<noteq> [] \<and> s \<noteq> ''double''
                \<longrightarrow> prefix = s)"
proof (intro exI conjI)
  show "performLineAddition detectIndent preset fileContent addition =
             Inr (joinNewline
               (if contextualizeValue preset (direction addition) = Above
                then pre @ [linePrefix detectIndent additionIndent anchor @ ''bar'', anchor] @ post
                else pre @ [anchor, linePrefix detectIndent additionIndent anchor @ ''bar''] @ post))"
    using assms
    by (simp add: performLineAddition_skip0 [where contentToAdd = "[''bar'']"]
        insertAfterEach_single insertBeforeEach_single block_def)
qed (auto simp: linePrefix_def)

text \<open>
  C5 at the inputs of the spec: an anchor indented by two spaces, and the indent
  unset, \<^verbatim>\<open>'double'\<close>, \<^verbatim>\<open>4\<close> and a tab.
\<close>

theorem indentation_modes_witness:
  "performLineAddition leadingWhitespace () (joinNewline [''{'', ''  foo'', ''}''])
     \<lparr>search = Literal (Some (literalPattern ''foo'')), direction = Literal Below,
        content = Literal (One ''bar''), indent = Literal (IndentUndefined),
        amountOfLinesToSkip = Literal 0\<rparr>
   = Inr (joinNewline [''{'', ''  foo'', ''  bar'', ''}''])
   \<and> performLineAddition leadingWhitespace () (joinNewline [''{'', ''  foo'', ''}''])
     \<lparr>search = Literal (Some (literalPattern ''foo'')), direction = Literal Below,
        content = Literal (One ''bar''), indent = Literal (IndentString ''double''),
        amountOfLinesToSkip = Literal 0\<rparr>
   = Inr (joinNewline [''{'', ''  foo'', ''    bar'', ''}''])
   \<and> performLineAddition leadingWhitespace () (joinNewline [''{'', ''  foo'', ''}''])
     \<lparr>search = Literal (Some (literalPattern ''foo'')), direction = Literal Below,
        content = Literal (One ''bar''), indent = Literal (IndentNumber 4),
        amountOfLinesToSkip = Literal 0\<rparr>
   = Inr (joinNewline [''{'', ''  foo'', ''    bar'', ''}''])
   \<and> performLineAddition leadingWhitespace () (joinNewline [''{'', ''  foo'', ''}''])
     \<lparr>search = Literal (Some (literalPattern ''foo'')), direction = Literal Below,
        content = Literal (One ''bar''), indent = Literal (IndentString [CHR 0x09]),
        amountOfLinesToSkip = Literal 0\<rparr>
   = Inr (joinNewline [''{'', ''  foo'', CHR 0x09 # ''bar'', ''}''])"
proof (intro conjI)
  show "performLineAddition leadingWhitespace () (joinNewline [''{'', ''  foo'', ''}''])
     \<lparr>search = Literal (Some (literalPattern ''foo'')), direction = Literal Below,
        content = Literal (One ''bar''), indent = Literal (IndentUndefined),
        amountOfLinesToSkip = Literal 0\<rparr>
   = Inr (joinNewline [''{'', ''  foo'', ''  bar'', ''}''])"
    using indentation_modes [of "()"
     "\<lparr>search = Literal (Some (literalPattern ''foo'')), direction = Literal Below,
        content = Literal (One ''bar''), indent = Literal (IndentUndefined),
        amountOfLinesToSkip = Literal 0\<rparr>" "literalPattern ''foo''" "IndentUndefined"
     "joinNewline [''{'', ''  foo'', ''}'']" "[''{'']" "''  foo''" "[''}'']" leadingWhitespace]
    by (simp add: splitNewline_def literalPattern_def leadingWhitespace_def eval_nat_numeral)
  show "performLineAddition leadingWhitespace () (joinNewline [''{'', ''  foo'', ''}''])
     \<lparr>search = Literal (Some (literalPattern ''foo'')), direction = Literal Below,
        content = Literal (One ''bar''), indent = Literal (IndentString ''double''),
        amountOfLinesToSkip = Literal 0\<rparr>
   = Inr (joinNewline [''{'', ''  foo'', ''    bar'', ''}''])"
    using indentation_modes [of "()"
     "\<lparr>search = Literal (Some (literalPattern ''foo'')), direction = Literal Below,
        content = Literal (One ''bar''), indent = Literal (IndentString ''double''),
        amountOfLinesToSkip = Literal 0\<rparr>" "literalPattern ''foo''" "IndentString ''double''"
     "joinNewline [''{'', ''  foo'', ''}'']" "[''{'']" "''  foo''" "[''}'']" leadingWhitespace]
    by (simp add: splitNewline_def literalPattern_def leadingWhitespace_def eval_nat_numeral)
  show "performLineAddition leadingWhitespace () (joinNewline [''{'', ''  foo'', ''}''])
     \<lparr>search = Literal (Some (literalPattern ''foo'')), direction = Literal Below,
        content = Literal (One ''bar''), indent = Literal (IndentNumber 4),
        amountOfLinesToSkip = Literal 0\<rparr>
   = Inr (joinNewline [''{'', ''  foo'', ''    bar'', ''}''])"
    using indentation_modes [of "()"
     "\<lparr>search = Literal (Some (literalPattern ''foo'')), direction = Literal Below,
        content = Literal (One ''bar''), indent = Literal (IndentNumber 4),
        amountOfLinesToSkip = Literal 0\<rparr>" "literalPattern ''foo''" "IndentNumber 4"
     "joinNewline [''{'', ''  foo'', ''}'']" "[''{'']" "''  foo''" "[''}'']" leadingWhitespace]
    by (simp add: splitNewline_def literalPattern_def leadingWhitespace_def eval_nat_numeral)
  show "performLineAddition leadingWhitespace () (joinNewline [''{'', ''  foo'', ''}''])
     \<lparr>search = Literal (Some (literalPattern ''foo'')), direction = Literal Below,
        content = Literal (One ''bar''), indent = Literal (IndentString [CHR 0x09]),
        amountOfLinesToSkip = Literal 0\<rparr>
   = Inr (joinNewline [''{'', ''  foo'', CHR 0x09 # ''bar'', ''}''])"
    using indentation_modes [of "()"
     "\<lparr>search = Literal (Some (literalPattern ''foo'')), direction = Literal Below,
        content = Literal (One ''bar''), indent = Literal (IndentString [CHR 0x09]),
        amountOfLinesToSkip = Literal 0\<rparr>" "literalPattern ''foo''" "IndentString [CHR 0x09]"
     "joinNewline [''{'', ''  foo'', ''}'']" "[''{'']" "''  foo''" "[''}'']" leadingWhitespace]
    by (simp add: splitNewline_def literalPattern_def leadingWhitespace_def eval_nat_numeral)
qed

text \<open>
  C6 (as amended). The output is the final line buffer joined with single \<open>LF\<close>
  characters, but line endings are not normalized: the input is split at \<open>LF\<close>
  only, and the buffer is made of the lines of the input, each copied as it is and
  in the order of the input, with nothing between them but the inserted blocks (for
  each line either no block or the block of the prefixed lines to add, after the
  line for the direction below and before it for the direction above). A \<open>CR\<close> at
  the end of a line of the input therefore stays where it is, before the \<open>LF\<close>. The
  output is free of \<open>CR\<close> when the input, the lines to add, the indentation that
  \<open>detectIndent\<close> reports and a custom indent string are.
\<close>

theorem line_endings_kept:
  assumes "performLineAddition detectIndent preset fileContent addition = Inr output"
  shows "(\<exists>blocks.
            list_all2
              (\<lambda>line b. b = [] \<or>
                 b = block detectIndent (contextualizeValue preset (indent addition))
                       (wrap (contextualizeValue preset (content addition))) line)
              (splitNewline fileContent) blocks
            \<and> output = joinNewline (concat (map2
                 (\<lambda>line b. if contextualizeValue preset (direction addition) = Above
                            then b @ [line] else line # b)
                 (splitNewline fileContent) blocks)))
         \<and> (CR \<notin> set fileContent
            \<and> (\<forall>l\<in>set (wrap (contextualizeValue preset (content addition))). CR \<notin> set l)
            \<and> (\<forall>l. CR \<notin> set (detectIndent l))
            \<and> (\<forall>s. contextualizeValue preset (indent addition) = IndentString s \<longrightarrow> CR \<notin> set s)
            \<longrightarrow> CR \<notin> set output)"
  using performLineAddition_copies [OF assms] performLineAddition_keeps [OF assms]
  by blast

text \<open>
  C6 as stated fails: for an input with the line ending \<open>CR LF\<close> the output still
  has that line ending.
\<close>

theorem newline_normalized_counterexample:
  "performLineAddition leadingWhitespace () (''a'' @ [CR, LF] @ ''b'')
     \<lparr>search = Literal (Some (literalPattern ''b'')), direction = Literal Below,
        content = Literal (Many [''X'']), indent = Literal IndentUndefined,
        amountOfLinesToSkip = Literal 0\<rparr>
   = Inr (''a'' @ [CR, LF] @ ''b'' @ [LF] @ ''X'')"
  by (simp add: performLineAddition_def splitNewline_def literalPattern_def
      leadingWhitespace_def indentedLine_def Let_def)

text \<open>
  The amended C6 at two concrete inputs: one with the line ending \<open>CR LF\<close>, whose
  lines \<^verbatim>\<open>"a\r"\<close> and \<^verbatim>\<open>"b"\<close> are in the output as they are, and one without a
  \<open>CR\<close>, where the output has none.
\<close>

theorem line_endings_kept_witness:
  "performLineAddition leadingWhitespace () (''a'' @ [CR, LF] @ ''b'')
      \<lparr>search = Literal (Some (literalPattern ''b'')), direction = Literal Below,
         content = Literal (Many [''X'']), indent = Literal IndentUndefined,
         amountOfLinesToSkip = Literal 0\<rparr>
    = Inr (''a'' @ [CR, LF] @ ''b'' @ [LF] @ ''X'')
   \<and> (\<exists>blocks.
         list_all2 (\<lambda>line b. b = [] \<or> b = block leadingWhitespace IndentUndefined [''X''] line)
           [''a'' @ [CR], ''b''] blocks
         \<and> ''a'' @ [CR, LF] @ ''b'' @ [LF] @ ''X'' =
             joinNewline (concat (map2 (\<lambda>line b. line # b) [''a'' @ [CR], ''b''] blocks)))
   \<and> performLineAddition leadingWhitespace () (joinNewline [''a'', ''b''])
      \<lparr>search = Literal (Some (literalPattern ''b'')), direction = Literal Below,
         content = Literal (Many [''X'']), indent = Literal IndentUndefined,
         amountOfLinesToSkip = Literal 0\<rparr>
    = Inr (joinNewline [''a'', ''b'', ''X''])
   \<and> CR \<notin> set (joinNewline [''a'', ''b'', ''X''])"
proof -
  let ?addition = "\<lparr>search = Literal (Some (literalPattern ''b'')), direction = Literal Below,
         content = Literal (Many [''X'']), indent = Literal IndentUndefined,
         amountOfLinesToSkip = Literal 0\<rparr> :: unit LineAddition"
  have crlf: "performLineAddition leadingWhitespace () (''a'' @ [CR, LF] @ ''b'') ?addition
      = Inr (''a'' @ [CR, LF] @ ''b'' @ [LF] @ ''X'')"
    by (simp add: performLineAddition_def splitNewline_def literalPattern_def
        leadingWhitespace_def indentedLine_def Let_def)
  have lf: "performLineAddition leadingWhitespace () (joinNewline [''a'', ''b'']) ?addition
      = Inr (joinNewline [''a'', ''b'', ''X''])"
    by (simp add: performLineAddition_def splitNewline_def literalPattern_def
        leadingWhitespace_def indentedLine_def Let_def)
  have spaces: "\<forall>l. CR \<notin> set (leadingWhitespace l)"
    by (auto simp: leadingWhitespace_def dest: set_takeWhileD)
  have lines: "splitNewline (''a'' @ [CR, LF] @ ''b'') = [''a'' @ [CR], ''b'']"
    by (simp add: splitNewline_def)
  have copied: "\<exists>blocks.
         list_all2 (\<lambda>line b. b = [] \<or> b = block leadingWhitespace IndentUndefined [''X''] line)
           [''a'' @ [CR], ''b''] blocks
         \<and> ''a'' @ [CR, LF] @ ''b'' @ [LF] @ ''X'' =
             joinNewline (concat (map2 (\<lambda>line b. line # b) [''a'' @ [CR], ''b''] blocks))"
    using line_endings_kept [OF crlf, THEN conjunct1] unfolding lines by simp
  have none: "CR \<notin> set (joinNewline [''a'', ''b'', ''X''])"
    using line_endings_kept [OF lf, THEN conjunct2] spaces by simp
  from crlf copied lf none show ?thesis by blast
qed

section \<open>Claims on the importer\<close>

text \<open>
  C7 (as amended). The context in which the preset script runs is populated with
  exactly five names: \<^verbatim>\<open>exports\<close> (an empty object), \<^verbatim>\<open>require\<close>, \<^verbatim>\<open>module\<close>,
  \<^verbatim>\<open>Preset\<close> (a freshly constructed instance) and \<^verbatim>\<open>color\<close>. When the transform
  and the run succeed, \<^verbatim>\<open>evaluateConfiguration\<close>, and with it \<^verbatim>\<open>import\<close>, returns
  the value of \<^verbatim>\<open>Preset\<close> read back from the context as the script left it.
\<close>

theorem sandbox_capabilities:
  "dom (createContext h) = {''exports'', ''require'', ''module'', ''Preset'', ''color''}
   \<and> createContext h ''exports'' = Some (emptyObject h)
   \<and> createContext h ''require'' = Some (require h)
   \<and> createContext h ''module'' = Some (module h)
   \<and> createContext h ''Preset'' = Some (newPreset h)
   \<and> createContext h ''color'' = Some (color h)
   \<and> (\<forall>script code context'.
         transformSync script = Inr code \<and> runInContext code (createContext h) = Inr context'
         \<longrightarrow> evaluateConfiguration transformSync runInContext h script = Inr (context' ''Preset''))
   \<and> (\<forall>file script code context'.
         findConfiguration pathJoin manifestPreset magenta fs directory = Inr file
         \<and> readFileSync fs file = Inr script
         \<and> transformSync (removeSelfImportStatement packageName script) = Inr code
         \<and> runInContext code (createContext h) = Inr context'
         \<longrightarrow> importPreset pathJoin manifestPreset magenta packageName transformSync runInContext
               h fs directory = Inr (context' ''Preset''))"
proof (intro conjI allI impI)
  show "dom (createContext h) = {''exports'', ''require'', ''module'', ''Preset'', ''color''}"
    by (auto simp: createContext_def)
qed (auto simp: createContext_def evaluateConfiguration_def importPreset_def Let_def)

text \<open>
  C7 as stated fails: the context has a fifth name, \<^verbatim>\<open>module\<close>, so its names are
  not the four of the claim.
\<close>

theorem four_capabilities_counterexample:
  "createContext \<lparr>emptyObject = ''{}'', require = ''require'', module = ''module'',
                   newPreset = ''new Preset()'', color = ''color''\<rparr> ''module'' = Some ''module''
   \<and> dom (createContext \<lparr>emptyObject = ''{}'', require = ''require'', module = ''module'',
                   newPreset = ''new Preset()'', color = ''color''\<rparr>)
       \<noteq> {''exports'', ''require'', ''Preset'', ''color''}"
proof
  let ?h = "\<lparr>emptyObject = ''{}'', require = ''require'', module = ''module'',
                   newPreset = ''new Preset()'', color = ''color''\<rparr>"
  show bound: "createContext ?h ''module'' = Some ''module''"
    by (simp add: createContext_def)
  then have "''module'' \<in> dom (createContext ?h)"
    by (rule domI)
  moreover have "''module'' \<notin> {''exports'', ''require'', ''Preset'', ''color''}"
    by simp
  ultimately show "dom (createContext ?h) \<noteq> {''exports'', ''require'', ''Preset'', ''color''}"
    by metis
qed

text \<open>
  The amended C7 at a concrete input: a run that replaces the value of \<^verbatim>\<open>Preset\<close>.
\<close>

theorem sandbox_capabilities_witness:
  "evaluateConfiguration (\<lambda>script. Inr (''code of '' @ script))
      (\<lambda>code context. Inr (context(''Preset'' \<mapsto> ''preset built by '' @ code)))
      \<lparr>emptyObject = ''{}'', require = ''require'', module = ''module'',
         newPreset = ''new Preset()'', color = ''color''\<rparr> ''script''
   = (Inr (Some ''preset built by code of script'') :: unit thrown + string option)"
proof -
  let ?h = "\<lparr>emptyObject = ''{}'', require = ''require'', module = ''module'',
         newPreset = ''new Preset()'', color = ''color''\<rparr>"
  let ?t = "\<lambda>script. (Inr (''code of '' @ script) :: unit + string)"
  let ?r = "\<lambda>code context. (Inr (context(''Preset'' \<mapsto> ''preset built by '' @ code))
      :: unit + (string \<rightharpoonup> string))"
  have "?t ''script'' = Inr ''code of script''
      \<and> ?r ''code of script'' (createContext ?h)
          = Inr ((createContext ?h)(''Preset'' \<mapsto> ''preset built by code of script''))"
    by simp
  with sandbox_capabilities [of ?h ?t ?r]
  have "evaluateConfiguration ?t ?r ?h ''script''
      = Inr (((createContext ?h)(''Preset'' \<mapsto> ''preset built by code of script'')) ''Preset'')"
    by blast
  then show ?thesis by simp
qed

text \<open>
  C8. When the manifest declares a preset path and nothing is at that path,
  \<^verbatim>\<open>findConfiguration\<close> does not reach the \<^verbatim>\<open>ExecutionError\<close> whose message says
  that the specified file does not exist: \<^verbatim>\<open>fs.statSync\<close> throws \<^verbatim>\<open>ENOENT\<close> first,
  and that system error is what the caller receives. (The lemmas
  \<open>findConfiguration_declared_file\<close>, \<open>findConfiguration_declared_not_a_file\<close>
  and \<open>findConfiguration_guess\<close> above give the other cases of the discovery.)
\<close>

theorem missing_declared_file_throws_ENOENT:
  assumes "fs (pathJoin directory ''package.json'') = Some (File manifest)"
      and "manifestPreset manifest = Inr (Some preset)"
      and "fs (pathJoin directory preset) = None"
  shows "findConfiguration pathJoin manifestPreset magenta fs directory =
         Inl (SystemError (ENOENT (pathJoin directory preset)))"
  using assms
  by (simp add: findConfiguration_def
      specifiedConfiguration_declared [where manifest = manifest and preset = preset])

text \<open>
  C8 at a concrete directory: the manifest declares \<^verbatim>\<open>missing.ts\<close>, which is absent,
  while the conventional \<^verbatim>\<open>preset.ts\<close> is there.
\<close>

theorem missing_declared_file_throws_ENOENT_witness:
  "findConfiguration (\<lambda>directory file. directory @ ''/'' @ file)
     (\<lambda>text. (Inr (Some ''missing.ts'') :: unit + string option)) (\<lambda>text. text)
     [''/p/package.json'' \<mapsto> File ''preset: missing.ts'', ''/p/preset.ts'' \<mapsto> File ''script'']
     ''/p''
   = Inl (SystemError (ENOENT ''/p/missing.ts''))"
  using missing_declared_file_throws_ENOENT [of
     "[''/p/package.json'' \<mapsto> File ''preset: missing.ts'', ''/p/preset.ts'' \<mapsto> File ''script'']"
     "\<lambda>directory file. directory @ ''/'' @ file" "''/p''" "''preset: missing.ts''"
     "\<lambda>text. (Inr (Some ''missing.ts'') :: unit + string option)" "''missing.ts''"
     "\<lambda>text. text"]
  by simp

text \<open>
  C9. A failure of the transform, and a failure of the run in the sandbox, each
  makes \<^verbatim>\<open>evaluateConfiguration\<close> throw one \<^verbatim>\<open>ExecutionError\<close> with the message
  that the preset could not be evaluated, the original failure as its trace and the
  halt flag set; and every exception of \<^verbatim>\<open>evaluateConfiguration\<close> is such a
  wrapped failure of the transform or of the run.
\<close>

theorem evaluation_failures_wrapped:
  "(\<forall>error. transformSync script = Inl error
       \<longrightarrow> evaluateConfiguration transformSync runInContext h script =
             Inl (Execution \<lparr>userMessage = ''The preset could not be evaluated.'',
                               trace = Some error, halt = True\<rparr>))
   \<and> (\<forall>code error.
         transformSync script = Inr code \<and> runInContext code (createContext h) = Inl error
       \<longrightarrow> evaluateConfiguration transformSync runInContext h script =
             Inl (Execution \<lparr>userMessage = ''The preset could not be evaluated.'',
                               trace = Some error, halt = True\<rparr>))
   \<and> (\<forall>e. evaluateConfiguration transformSync runInContext h script = Inl e
       \<longrightarrow> (\<exists>error.
              e = Execution \<lparr>userMessage = ''The preset could not be evaluated.'',
                                trace = Some error, halt = True\<rparr>
              \<and> (transformSync script = Inl error
                 \<or> (\<exists>code. transformSync script = Inr code
                       \<and> runInContext code (createContext h) = Inl error))))"
  by (auto simp: evaluateConfiguration_def evaluation_error_fields Let_def split: sum.splits)

text \<open>C9 at two concrete inputs: a failing transform and a failing run.\<close>

theorem evaluation_failures_wrapped_witness:
  "evaluateConfiguration (\<lambda>script. (Inl ''SyntaxError'' :: string + string))
      (\<lambda>code context. (Inr context :: string + (string \<rightharpoonup> string)))
      \<lparr>emptyObject = ''{}'', require = ''require'', module = ''module'',
         newPreset = ''new Preset()'', color = ''color''\<rparr> ''script''
   = Inl (Execution \<lparr>userMessage = ''The preset could not be evaluated.'',
                      trace = Some ''SyntaxError'', halt = True\<rparr>)
   \<and> evaluateConfiguration (\<lambda>script. Inr script)
      (\<lambda>code context. (Inl ''ReferenceError'' :: string + (string \<rightharpoonup> string)))
      \<lparr>emptyObject = ''{}'', require = ''require'', module = ''module'',
         newPreset = ''new Preset()'', color = ''color''\<rparr> ''script''
   = Inl (Execution \<lparr>userMessage = ''The preset could not be evaluated.'',
                      trace = Some ''ReferenceError'', halt = True\<rparr>)"
proof
  let ?h = "\<lparr>emptyObject = ''{}'', require = ''require'', module = ''module'',
         newPreset = ''new Preset()'', color = ''color''\<rparr>"
  let ?t = "\<lambda>script :: string. (Inl ''SyntaxError'' :: string + string)"
  let ?r = "\<lambda>(code :: string) context. (Inr context :: string + (string \<rightharpoonup> string))"
  have "?t ''script'' = Inl ''SyntaxError''" by simp
  with evaluation_failures_wrapped [of ?t "''script''" ?r ?h]
  show "evaluateConfiguration ?t ?r ?h ''script''
      = Inl (Execution \<lparr>userMessage = ''The preset could not be evaluated.'',
                         trace = Some ''SyntaxError'', halt = True\<rparr>)"
    by blast
next
  let ?h = "\<lparr>emptyObject = ''{}'', require = ''require'', module = ''module'',
         newPreset = ''new Preset()'', color = ''color''\<rparr>"
  let ?t = "\<lambda>script :: string. (Inr script :: string + string)"
  let ?r = "\<lambda>(code :: string) (context :: string \<rightharpoonup> string).
      (Inl ''ReferenceError'' :: string + (string \<rightharpoonup> string))"
  have "?t ''script'' = Inr ''script'' \<and> ?r ''script'' (createContext ?h) = Inl ''ReferenceError''"
    by simp
  with evaluation_failures_wrapped [of ?t "''script''" ?r ?h]
  show "evaluateConfiguration ?t ?r ?h ''script''
      = Inl (Execution \<lparr>userMessage = ''The preset could not be evaluated.'',
                         trace = Some ''ReferenceError'', halt = True\<rparr>)"
    by blast
qed

section \<open>Claim on the logger\<close>

text \<open>
  C10. \<^verbatim>\<open>Logger.exit\<close> logs its message at the level \<^verbatim>\<open>error\<close> and then ends the
  process with exit status 0.
\<close>

theorem exit_logs_error_then_status_zero:
  "logs (exit message args p) = logs p @ [(''error'', message, args)]
   \<and> exitStatus (exit message args p) = Some 0"
  by (simp add: exit_def processExit_def loggerLog_def)

end
